theory Spec2Isabelle
  imports Complex_Main
begin

section \<open>Numbers, bars and array access\<close>

text \<open>
  The program is JavaScript. Its numbers are IEEE double-precision numbers; every finite
  double is a rational, and a number is modelled as a rational. The arithmetic of
  \<^verbatim>\<open>simulateOne\<close> on prices and percentages, whose results are compared with the bars
  and decide the outcome of a trade, is rounded to the nearest double after each
  operation (next section). Three computations are kept exact: the index arithmetic
  \<open>triggerBar - 1\<close> and \<open>bar - 1\<close>, which the double subtraction gives exactly for every
  integer below \<open>2^53\<close>; the body-ratio classifier; and the aggregate statistics of
  \<^verbatim>\<open>simulate\<close>. NaN and the infinities (overflow, division by zero) are not part of
  the model. Counters and array lengths are natural numbers, timestamps and the bar-count
  option (the result of \<^verbatim>\<open>parseInt\<close>) are integers.

  A bar is the five-element array \<^verbatim>\<open>[timestamp, open, high, low, close]\<close>; the fields
  stand for the indices 0 to 4.
\<close>

record bar =
  timestamp :: int
  bar_open :: rat
  high :: rat
  low :: rat
  close :: rat

datatype error = TypeError

text \<open>
  \<^verbatim>\<open>xs[i]\<close> for a JavaScript number \<open>i\<close>: the element when \<open>i\<close> is an integer within
  range, \<^verbatim>\<open>undefined\<close> (here \<open>None\<close>) otherwise, also for a negative or fractional \<open>i\<close>.
\<close>

definition js_index :: "'a list \<Rightarrow> rat \<Rightarrow> 'a option" where
  "js_index xs i =
     (if of_int \<lfloor>i\<rfloor> = i \<and> 0 \<le> i \<and> i < of_nat (length xs)
      then Some (xs ! nat \<lfloor>i\<rfloor>) else None)"

text \<open>\<^verbatim>\<open>xs.slice(0, e)\<close> for an integer \<open>e\<close>: a negative \<open>e\<close> counts from the end.\<close>

definition js_slice0 :: "'a list \<Rightarrow> int \<Rightarrow> 'a list" where
  "js_slice0 xs e = (if e < 0 then take (nat (int (length xs) + e)) xs else take (nat e) xs)"

text \<open>The decimal text of an integer, as a template literal prints it.\<close>

fun show_nat :: "nat \<Rightarrow> string" where
  "show_nat n =
     (if n < 10 then [''0123456789'' ! n]
      else show_nat (n div 10) @ [''0123456789'' ! (n mod 10)])"

declare show_nat.simps [simp del]

definition show_int :: "int \<Rightarrow> string" where
  "show_int i = (if i < 0 then ''-'' @ show_nat (nat (- i)) else show_nat (nat i))"

section \<open>Double-precision arithmetic\<close>

text \<open>
  The result of an arithmetic operation of the program is the exact result rounded to
  the nearest double, a tie going to the even significand. For \<open>x \<noteq> 0\<close> with
  \<open>2^e \<le> |x| < 2^(e+1)\<close> the doubles around \<open>x\<close> are the multiples of \<open>2^(e-52)\<close> (53
  significant bits); below \<open>2^(-1022)\<close> they are the multiples of \<open>2^(-1074)\<close>
  (subnormal numbers). Overflow to infinity is outside the model.
\<close>

function ilog2 :: "int \<Rightarrow> int" where
  "ilog2 n = (if n < 2 then 0 else 1 + ilog2 (n div 2))"
  by pat_completeness auto
termination
  by (relation "measure nat") auto

declare ilog2.simps [simp del]

definition pow2 :: "int \<Rightarrow> rat" where
  "pow2 k = (if 0 \<le> k then 2 ^ nat k else 1 / 2 ^ nat (- k))"

text \<open>The exponent \<open>e\<close> of a positive rational \<open>a\<close>: \<open>2^e \<le> a < 2^(e+1)\<close>.\<close>

definition exponent :: "rat \<Rightarrow> int" where
  "exponent a =
     (let (n, d) = quotient_of a;
          e0 = ilog2 n - ilog2 d
      in if pow2 e0 \<le> a then e0 else e0 - 1)"

text \<open>The nearest integer, a tie going to the even one.\<close>

definition round_even :: "rat \<Rightarrow> int" where
  "round_even y =
     (let m = \<lfloor>y\<rfloor>; r = y - of_int m
      in if r < 1 / 2 then m
         else if 1 / 2 < r then m + 1
         else if even m then m else m + 1)"

definition to_double :: "rat \<Rightarrow> rat" where
  "to_double x =
     (if x = 0 then 0
      else
        (let e = max (exponent \<bar>x\<bar>) (- 1022);
             ulp = pow2 (e - 52)
         in of_int (round_even (x / ulp)) * ulp))"

text \<open>The operators \<^verbatim>\<open>+\<close>, \<^verbatim>\<open>-\<close>, \<^verbatim>\<open>*\<close> and \<^verbatim>\<open>/\<close> on doubles.\<close>

definition dadd :: "rat \<Rightarrow> rat \<Rightarrow> rat" where
  "dadd x y = to_double (x + y)"

definition dsub :: "rat \<Rightarrow> rat \<Rightarrow> rat" where
  "dsub x y = to_double (x - y)"

definition dmul :: "rat \<Rightarrow> rat \<Rightarrow> rat" where
  "dmul x y = to_double (x * y)"

definition ddiv :: "rat \<Rightarrow> rat \<Rightarrow> rat" where
  "ddiv x y = to_double (x / y)"

section \<open>Aggregation and classification (ChartRenderer)\<close>

text \<open>
  The loop of \<^verbatim>\<open>aggregateToFrequency\<close>,
  \<^verbatim>\<open>for (let i = 0; i < bars5min.length; i += barsPerPeriod)\<close>. The chunk is
  \<^verbatim>\<open>bars5min.slice(i, i + barsPerPeriod)\<close>. The source calls the loop with a step of 2 or
  3 only; the test \<open>0 < barsPerPeriod\<close> is what the termination proof needs.
\<close>

function aggregate_loop :: "bar list \<Rightarrow> nat \<Rightarrow> nat \<Rightarrow> bar list \<Rightarrow> bar list" where
  "aggregate_loop bars5min barsPerPeriod i result =
     (if i < length bars5min \<and> 0 < barsPerPeriod then
        (let chunk = take barsPerPeriod (drop i bars5min) in
         case chunk of
           [] \<Rightarrow> aggregate_loop bars5min barsPerPeriod (i + barsPerPeriod) result
         | c # cs \<Rightarrow>
             (let aggregated =
                    \<lparr>timestamp = timestamp c,
                     bar_open = bar_open c,
                     high = fold max (map high cs) (high c),
                     low = fold min (map low cs) (low c),
                     close = close (last chunk)\<rparr>
              in aggregate_loop bars5min barsPerPeriod (i + barsPerPeriod)
                   (result @ [aggregated])))
      else result)"
  by pat_completeness auto
termination
  by (relation "measure (\<lambda>(bars5min, k, i, result). length bars5min - i)") auto

declare aggregate_loop.simps [simp del]

definition aggregateToFrequency :: "bar list \<Rightarrow> string \<Rightarrow> bar list" where
  "aggregateToFrequency bars5min targetFreq =
     (if targetFreq = ''5min'' then bars5min
      else
        (let periodMinutes = (if targetFreq = ''10min'' then 10 else 15 :: nat);
             barsPerPeriod = periodMinutes div 5
         in aggregate_loop bars5min barsPerPeriod 0 []))"

definition bar_direction :: "bar \<Rightarrow> string" where
  "bar_direction b =
     (if close b > bar_open b then ''UP''
      else if close b < bar_open b then ''DOWN''
      else ''FLAT'')"

definition calculateBarDirections :: "bar list \<Rightarrow> string list" where
  "calculateBarDirections bars = map bar_direction bars"

text \<open>The function \<^verbatim>\<open>calculateBodyRatios\<close> maps over the bars.\<close>

definition body_ratio :: "bar \<Rightarrow> string" where
  "body_ratio b =
     (let range = high b - low b in
      if range \<le> 0 then ''<25%''
      else
        (let body = \<bar>close b - bar_open b\<bar>;
             ratio = (body / range) * 100
         in if ratio < 25 then ''<25%''
            else if ratio < 50 then ''25-50%''
            else if ratio < 75 then ''50-75%''
            else ''>75%''))"

definition calculateBodyRatios :: "bar list \<Rightarrow> string list" where
  "calculateBodyRatios bars = map body_ratio bars"

section \<open>Filtering and view generation (DataProcessor)\<close>

text \<open>
  An element of \<^verbatim>\<open>processedCharts\<close>. A prior-day flag that is \<^verbatim>\<open>null\<close> or missing in the
  data is \<open>None\<close>.
\<close>

record chart_entry =
  source :: string
  timezone :: string
  tradingHours :: string
  date :: string
  gapDirection :: string
  gapSizeClass :: string
  openAbovePrevHigh :: "bool option"
  closeBelowPrevLow :: "bool option"
  prevClose :: "rat option"
  prevHigh :: "rat option"
  prevLow :: "rat option"
  bars :: "bar list"
  barDirections :: "string list"
  bodyRatios :: "string list"

text \<open>The object \<^verbatim>\<open>getTradingDayData\<close> returns: the entry's properties and two more.\<close>

record chart_data = chart_entry +
  frequency :: string
  maxBars :: int

text \<open>An element of the result of \<^verbatim>\<open>getFilteredCharts\<close>: \<^verbatim>\<open>{...chartData, key}\<close>.\<close>

record chart_view = chart_data +
  key :: string

definition getTradingDayData ::
  "chart_entry list \<Rightarrow> string \<Rightarrow> string \<Rightarrow> string \<Rightarrow> int \<Rightarrow> chart_data option"
where
  "getTradingDayData processedCharts sourceName dateStr freq maxB =
     (case find (\<lambda>c. source c = sourceName \<and> date c = dateStr) processedCharts of
        None \<Rightarrow> None
      | Some e \<Rightarrow>
          (let bars0 = aggregateToFrequency (bars e) freq;
               bars1 = (if maxB < 999 \<and> int (length bars0) > maxB
                        then js_slice0 bars0 maxB else bars0)
           in Some
                \<lparr>source = source e,
                 timezone = timezone e,
                 tradingHours = tradingHours e,
                 date = date e,
                 gapDirection = gapDirection e,
                 gapSizeClass = gapSizeClass e,
                 openAbovePrevHigh = openAbovePrevHigh e,
                 closeBelowPrevLow = closeBelowPrevLow e,
                 prevClose = prevClose e,
                 prevHigh = prevHigh e,
                 prevLow = prevLow e,
                 bars = bars1,
                 barDirections = calculateBarDirections bars1,
                 bodyRatios = calculateBodyRatios bars1,
                 frequency = freq,
                 maxBars = maxB\<rparr>))"

text \<open>
  A per-bar constraint \<^verbatim>\<open>{bar, direction, bodyRatio}\<close>; a missing \<^verbatim>\<open>bodyRatio\<close> is \<open>None\<close>.
\<close>

record bar_filter =
  bf_bar :: rat
  bf_direction :: string
  bf_bodyRatio :: "string option"

text \<open>
  The argument of \<^verbatim>\<open>getFilteredCharts\<close>. A property that is missing is \<open>None\<close>, and the
  destructuring gives it its default.
\<close>

record filters =
  f_sources :: "string list option"
  f_frequencies :: "string list option"
  f_barsOptions :: "int list option"
  f_gapDirections :: "string list option"
  f_gapSizeClasses :: "string list option"
  f_prevDayFilters :: "string list option"
  f_barFilters :: "bar_filter list option"

definition or_default :: "'a option \<Rightarrow> 'a \<Rightarrow> 'a" where
  "or_default x d = (case x of None \<Rightarrow> d | Some v \<Rightarrow> v)"

text \<open>The loop over \<^verbatim>\<open>prevDayFilters\<close>; \<open>False\<close> is the \<^verbatim>\<open>break\<close> with the flag cleared.\<close>

fun matchesPrevDay :: "'a chart_entry_scheme \<Rightarrow> string list \<Rightarrow> bool" where
  "matchesPrevDay e [] = True"
| "matchesPrevDay e (flt # rest) =
     (if flt = ''open_above_prev_high'' \<and> openAbovePrevHigh e \<noteq> Some True then False
      else if flt = ''close_below_prev_low'' \<and> closeBelowPrevLow e \<noteq> Some True then False
      else matchesPrevDay e rest)"

text \<open>
  The loop over \<^verbatim>\<open>barFilters\<close>. The test \<^verbatim>\<open>bf.bodyRatio && bf.bodyRatio !== 'any'\<close> is
  false for a missing and for an empty \<^verbatim>\<open>bodyRatio\<close>.
\<close>

fun matchesBarFilters :: "'a chart_entry_scheme \<Rightarrow> bar_filter list \<Rightarrow> bool" where
  "matchesBarFilters chartData [] = True"
| "matchesBarFilters chartData (bf # rest) =
     (let barIndex = bf_bar bf - 1 in
      if barIndex \<ge> of_nat (length (barDirections chartData)) then False
      else if js_index (barDirections chartData) barIndex \<noteq> Some (bf_direction bf) then False
      else
        (case bf_bodyRatio bf of
           None \<Rightarrow> matchesBarFilters chartData rest
         | Some br \<Rightarrow>
             if br \<noteq> [] \<and> br \<noteq> ''any'' then
               (if barIndex \<ge> of_nat (length (bodyRatios chartData)) then False
                else if js_index (bodyRatios chartData) barIndex \<noteq> Some br then False
                else matchesBarFilters chartData rest)
             else matchesBarFilters chartData rest))"

text \<open>
  The element pushed on \<^verbatim>\<open>results\<close>, \<^verbatim>\<open>{...chartData, key}\<close>, and its key, the
  template literal \<^verbatim>\<open>`${entry.source}-${entry.date}-${freq}-${barsOpt}`\<close>.
\<close>

definition view_key :: "'a chart_entry_scheme \<Rightarrow> string \<Rightarrow> int \<Rightarrow> string" where
  "view_key e freq barsOpt =
     source e @ ''-'' @ date e @ ''-'' @ freq @ ''-'' @ show_int barsOpt"

definition with_key :: "chart_data \<Rightarrow> string \<Rightarrow> chart_view" where
  "with_key chartData k = chart_data.extend chartData (chart_view.fields k)"

text \<open>The loop over \<^verbatim>\<open>barsOptions\<close>, returning what it pushes on \<^verbatim>\<open>results\<close>.\<close>

fun bars_loop ::
  "chart_entry list \<Rightarrow> bar_filter list \<Rightarrow> chart_entry \<Rightarrow> string \<Rightarrow> int list \<Rightarrow> chart_view list"
where
  "bars_loop processedCharts bfs e freq [] = []"
| "bars_loop processedCharts bfs e freq (barsOpt # rest) =
     (case getTradingDayData processedCharts (source e) (date e) freq barsOpt of
        None \<Rightarrow> bars_loop processedCharts bfs e freq rest
      | Some chartData \<Rightarrow>
          if length (bars chartData) < 5 then bars_loop processedCharts bfs e freq rest
          else if \<not> matchesBarFilters chartData bfs then
            bars_loop processedCharts bfs e freq rest
          else
            with_key chartData (view_key e freq barsOpt)
            # bars_loop processedCharts bfs e freq rest)"

text \<open>The loop over \<^verbatim>\<open>frequencies\<close>.\<close>

fun freq_loop ::
  "chart_entry list \<Rightarrow> bar_filter list \<Rightarrow> int list \<Rightarrow> chart_entry \<Rightarrow> string list
     \<Rightarrow> chart_view list"
where
  "freq_loop processedCharts bfs barsOpts e [] = []"
| "freq_loop processedCharts bfs barsOpts e (freq # rest) =
     bars_loop processedCharts bfs e freq barsOpts
     @ freq_loop processedCharts bfs barsOpts e rest"

text \<open>
  The loop over \<^verbatim>\<open>processedCharts\<close>; each \<^verbatim>\<open>continue\<close> goes on with the rest of the
  entries.
\<close>

fun entry_loop :: "chart_entry list \<Rightarrow> filters \<Rightarrow> chart_entry list \<Rightarrow> chart_view list" where
  "entry_loop processedCharts flt [] = []"
| "entry_loop processedCharts flt (e # rest) =
     (let srcs = or_default (f_sources flt) [];
          freqs = or_default (f_frequencies flt) [''5min''];
          barsOpts = or_default (f_barsOptions flt) [999];
          gapDirs = or_default (f_gapDirections flt) [];
          gapSizes = or_default (f_gapSizeClasses flt) [];
          prevDays = or_default (f_prevDayFilters flt) [];
          bfs = or_default (f_barFilters flt) []
      in if length srcs > 0 \<and> source e \<notin> set srcs then entry_loop processedCharts flt rest
         else if length gapDirs > 0 \<and> gapDirection e \<notin> set gapDirs then
           entry_loop processedCharts flt rest
         else if length gapSizes > 0 \<and> gapSizeClass e \<notin> set gapSizes then
           entry_loop processedCharts flt rest
         else if length prevDays > 0 \<and> \<not> matchesPrevDay e prevDays then
           entry_loop processedCharts flt rest
         else freq_loop processedCharts bfs barsOpts e freqs
              @ entry_loop processedCharts flt rest)"

definition getFilteredCharts :: "chart_entry list \<Rightarrow> filters \<Rightarrow> chart_view list" where
  "getFilteredCharts processedCharts flt = entry_loop processedCharts flt processedCharts"

section \<open>Trade simulator (trade-simulator.js)\<close>

record trade_params =
  triggerBar :: rat
  direction :: string
  targetPct :: rat
  stopPct :: rat

datatype outcome = WIN | LOSS | SKIP

text \<open>
  The object returned by \<^verbatim>\<open>simulateOne\<close>; a property the source leaves out of the object
  literal is \<open>None\<close>.
\<close>

record trade_result =
  outcome :: outcome
  pnl :: rat
  reason :: "string option"
  entry :: "rat option"
  target :: "rat option"
  stop :: "rat option"

text \<open>\<^verbatim>\<open>isValid(params)\<close>; a \<^verbatim>\<open>null\<close> or missing \<^verbatim>\<open>params\<close> is \<open>None\<close>.\<close>

definition isValid :: "trade_params option \<Rightarrow> bool" where
  "isValid params =
     (case params of
        None \<Rightarrow> False
      | Some p \<Rightarrow>
          triggerBar p > 0 \<and>
          (direction p = ''Long'' \<or> direction p = ''Short'') \<and>
          targetPct p > 0 \<and>
          stopPct p > 0)"

text \<open>
  The loop of \<^verbatim>\<open>simulateOne\<close> over the bars after the trigger,
  \<^verbatim>\<open>for (let i = triggerIndex + 1; i < bars.length; i++)\<close>, with the values the loop
  body reads passed along (the local \<^verbatim>\<open>entry\<close> is \<open>entryPrice\<close> here, \<open>entry\<close> being
  the property of the result).
\<close>

function scan_bars ::
  "string \<Rightarrow> rat \<Rightarrow> rat \<Rightarrow> rat \<Rightarrow> rat \<Rightarrow> rat \<Rightarrow> bar list \<Rightarrow> nat \<Rightarrow> trade_result"
where
  "scan_bars dir entryPrice targetOffset stopOffset targetPrice stopPrice bs i =
     (if i < length bs then
        (let barHigh = high (bs ! i);
             barLow = low (bs ! i);
             hitTarget = (if dir = ''Long'' then barHigh \<ge> targetPrice else barLow \<le> targetPrice);
             hitStop = (if dir = ''Long'' then barLow \<le> stopPrice else barHigh \<ge> stopPrice)
         in if hitTarget \<and> hitStop then
              \<lparr>outcome = SKIP, pnl = 0, reason = Some ''both hit'', entry = Some entryPrice,
               target = Some targetPrice, stop = Some stopPrice\<rparr>
            else if hitTarget then
              \<lparr>outcome = WIN, pnl = targetOffset, reason = None, entry = Some entryPrice,
               target = Some targetPrice, stop = Some stopPrice\<rparr>
            else if hitStop then
              \<lparr>outcome = LOSS, pnl = - stopOffset, reason = None, entry = Some entryPrice,
               target = Some targetPrice, stop = Some stopPrice\<rparr>
            else scan_bars dir entryPrice targetOffset stopOffset targetPrice stopPrice bs (i + 1))
      else
        \<lparr>outcome = SKIP, pnl = 0, reason = Some ''end of day'', entry = Some entryPrice,
         target = Some targetPrice, stop = Some stopPrice\<rparr>)"
  by pat_completeness auto
termination
  by (relation "measure (\<lambda>(dir, e, t, s, tp, sp, bs, i). length bs - i)") auto

declare scan_bars.simps [simp del]

text \<open>
  \<^verbatim>\<open>simulateOne(chartData, params)\<close>. Reading
  \<^verbatim>\<open>bars[triggerIndex]\<close> outside the array gives \<^verbatim>\<open>undefined\<close>, and the next line,
  \<^verbatim>\<open>triggerBar[4]\<close>, then throws a TypeError. The range, the offsets and the price
  levels are computed in double arithmetic; the negation in \<^verbatim>\<open>-stopOffset\<close> is exact.
\<close>

definition simulateOne :: "'a chart_entry_scheme \<Rightarrow> trade_params \<Rightarrow> error + trade_result" where
  "simulateOne chartData params =
     (let bs = bars chartData;
          triggerIndex = triggerBar params - 1 in
      if triggerIndex \<ge> of_nat (length bs) then
        Inr \<lparr>outcome = SKIP, pnl = 0, reason = Some ''not enough bars'', entry = None,
             target = None, stop = None\<rparr>
      else
        (case js_index bs triggerIndex of
           None \<Rightarrow> Inl TypeError
         | Some trigger \<Rightarrow>
             (let entryPrice = close trigger;
                  range = dsub (high trigger) (low trigger)
              in if range \<le> 0 then
                   Inr \<lparr>outcome = SKIP, pnl = 0, reason = Some ''zero range'',
                        entry = Some entryPrice, target = None, stop = None\<rparr>
                 else
                   (let targetOffset = dmul (ddiv (targetPct params) 100) range;
                        stopOffset = dmul (ddiv (stopPct params) 100) range;
                        targetPrice = (if direction params = ''Long''
                                       then dadd entryPrice targetOffset
                                       else dsub entryPrice targetOffset);
                        stopPrice = (if direction params = ''Long''
                                     then dsub entryPrice stopOffset
                                     else dadd entryPrice stopOffset)
                    in Inr (scan_bars (direction params) entryPrice targetOffset stopOffset
                              targetPrice stopPrice bs (nat \<lfloor>triggerIndex\<rfloor> + 1))))))"

text \<open>An element of \<^verbatim>\<open>trades\<close>: \<^verbatim>\<open>{ key: chart.key, ...result }\<close>.\<close>

record trade = trade_result +
  trade_key :: string

definition tag_trade :: "'a chart_view_scheme \<Rightarrow> trade_result \<Rightarrow> trade" where
  "tag_trade chart result = trade_result.extend result (trade.fields (key chart))"

text \<open>
  The loop of \<^verbatim>\<open>simulate\<close> over the charts, with its five variables \<^verbatim>\<open>trades\<close>,
  \<^verbatim>\<open>wins\<close>, \<^verbatim>\<open>losses\<close>, \<^verbatim>\<open>skipped\<close> and \<^verbatim>\<open>totalPnL\<close> as arguments. An exception of
  \<^verbatim>\<open>simulateOne\<close> leaves the loop and the function.
\<close>

fun simulate_loop ::
  "trade_params \<Rightarrow> 'a chart_view_scheme list \<Rightarrow> trade list \<Rightarrow> nat \<Rightarrow> nat \<Rightarrow> nat \<Rightarrow> rat
     \<Rightarrow> error + (trade list \<times> nat \<times> nat \<times> nat \<times> rat)"
where
  "simulate_loop params [] ts w l s tot = Inr (ts, w, l, s, tot)"
| "simulate_loop params (chart # rest) ts w l s tot =
     (case simulateOne chart params of
        Inl err \<Rightarrow> Inl err
      | Inr result \<Rightarrow>
          (let ts' = ts @ [tag_trade chart result] in
           if outcome result = WIN then
             simulate_loop params rest ts' (w + 1) l s (tot + pnl result)
           else if outcome result = LOSS then
             simulate_loop params rest ts' w (l + 1) s (tot + pnl result)
           else simulate_loop params rest ts' w l (s + 1) tot))"

text \<open>The statistics object \<^verbatim>\<open>simulate\<close> returns.\<close>

record stats =
  wins :: nat
  losses :: nat
  skipped :: nat
  decisive :: nat
  winRate :: rat
  avgPnL :: rat
  trades :: "trade list"

text \<open>
  \<^verbatim>\<open>simulate(charts, params)\<close>: \<open>Inr None\<close> is the \<^verbatim>\<open>null\<close> it returns for invalid
  parameters, \<open>Inl\<close> an exception.
\<close>

definition simulate :: "'a chart_view_scheme list \<Rightarrow> trade_params option \<Rightarrow> error + stats option"
where
  "simulate charts params =
     (if \<not> isValid params then Inr None
      else
        (case simulate_loop (the params) charts [] 0 0 0 0 of
           Inl err \<Rightarrow> Inl err
         | Inr (ts, w, l, s, tot) \<Rightarrow>
             (let d = w + l;
                  rate = (if d > 0 then (of_nat w / of_nat d) * 100 else 0);
                  avg = (if d > 0 then tot / of_nat d else 0)
              in Inr (Some \<lparr>wins = w, losses = l, skipped = s, decisive = d,
                             winRate = rate, avgPnL = avg, trades = ts\<rparr>))))"

section \<open>The quantities of the specification\<close>

text \<open>
  The definitions of this section follow the wording of the specification, not the code:
  the validity of trade parameters (\<open>triggerBar\<close> an integer of at least 1, a direction
  that is Long or Short, positive percentages), the trigger bar, the bars strictly after
  it, the range of the trigger bar, the offsets and price levels of the trade (range =
  high - low, offset = pct / 100 * range, level = entry plus or minus the offset, each in
  the arithmetic of the program's numbers), and when a bar hits a level.
\<close>

definition spec_valid :: "trade_params option \<Rightarrow> bool" where
  "spec_valid params =
     (case params of
        None \<Rightarrow> False
      | Some p \<Rightarrow>
          triggerBar p \<in> \<int> \<and> triggerBar p \<ge> 1 \<and>
          (direction p = ''Long'' \<or> direction p = ''Short'') \<and>
          targetPct p > 0 \<and> stopPct p > 0)"

definition trigger_bar :: "'a chart_entry_scheme \<Rightarrow> trade_params \<Rightarrow> bar" where
  "trigger_bar c p = bars c ! nat \<lfloor>triggerBar p - 1\<rfloor>"

definition bars_after :: "'a chart_entry_scheme \<Rightarrow> trade_params \<Rightarrow> bar list" where
  "bars_after c p = drop (nat \<lfloor>triggerBar p\<rfloor>) (bars c)"

definition trigger_range :: "'a chart_entry_scheme \<Rightarrow> trade_params \<Rightarrow> rat" where
  "trigger_range c p = dsub (high (trigger_bar c p)) (low (trigger_bar c p))"

definition target_offset :: "'a chart_entry_scheme \<Rightarrow> trade_params \<Rightarrow> rat" where
  "target_offset c p = dmul (ddiv (targetPct p) 100) (trigger_range c p)"

definition stop_offset :: "'a chart_entry_scheme \<Rightarrow> trade_params \<Rightarrow> rat" where
  "stop_offset c p = dmul (ddiv (stopPct p) 100) (trigger_range c p)"

definition target_price :: "'a chart_entry_scheme \<Rightarrow> trade_params \<Rightarrow> rat" where
  "target_price c p =
     (if direction p = ''Long'' then dadd (close (trigger_bar c p)) (target_offset c p)
      else dsub (close (trigger_bar c p)) (target_offset c p))"

definition stop_price :: "'a chart_entry_scheme \<Rightarrow> trade_params \<Rightarrow> rat" where
  "stop_price c p =
     (if direction p = ''Long'' then dsub (close (trigger_bar c p)) (stop_offset c p)
      else dadd (close (trigger_bar c p)) (stop_offset c p))"

definition hit_target :: "string \<Rightarrow> rat \<Rightarrow> bar \<Rightarrow> bool" where
  "hit_target dir targetPrice b =
     (if dir = ''Long'' then high b \<ge> targetPrice else low b \<le> targetPrice)"

definition hit_stop :: "string \<Rightarrow> rat \<Rightarrow> bar \<Rightarrow> bool" where
  "hit_stop dir stopPrice b =
     (if dir = ''Long'' then low b \<le> stopPrice else high b \<ge> stopPrice)"

definition fires :: "'a chart_entry_scheme \<Rightarrow> trade_params \<Rightarrow> bar \<Rightarrow> bool" where
  "fires c p b =
     (hit_target (direction p) (target_price c p) b \<or> hit_stop (direction p) (stop_price c p) b)"




text \<open>
  The bar of a chunk: timestamp and open of the first bar, the maximum of the highs, the
  minimum of the lows, the close of the last bar.
\<close>

definition chunk_bar :: "bar list \<Rightarrow> bar" where
  "chunk_bar chunk =
     \<lparr>timestamp = timestamp (hd chunk),
      bar_open = bar_open (hd chunk),
      high = Max (high ` set chunk),
      low = Min (low ` set chunk),
      close = close (last chunk)\<rparr>"

text \<open>
  The filter on entries: each of the three set dimensions admits an entry when its
  selection is empty or contains the entry's value, and each requested prior-day flag
  needs the entry's flag to be true.
\<close>

definition admitted :: "filters \<Rightarrow> 'a chart_entry_scheme \<Rightarrow> bool" where
  "admitted flt e \<longleftrightarrow>
     (or_default (f_sources flt) [] = [] \<or> source e \<in> set (or_default (f_sources flt) [])) \<and>
     (or_default (f_gapDirections flt) [] = [] \<or>
        gapDirection e \<in> set (or_default (f_gapDirections flt) [])) \<and>
     (or_default (f_gapSizeClasses flt) [] = [] \<or>
        gapSizeClass e \<in> set (or_default (f_gapSizeClasses flt) [])) \<and>
     (''open_above_prev_high'' \<in> set (or_default (f_prevDayFilters flt) []) \<longrightarrow>
        openAbovePrevHigh e = Some True) \<and>
     (''close_below_prev_low'' \<in> set (or_default (f_prevDayFilters flt) []) \<longrightarrow>
        closeBelowPrevLow e = Some True)"

text \<open>
  The per-bar constraints: the body-ratio class a constraint asks for, if any (a missing
  or empty class and "any" are the wildcard); a constraint holds on a view when
  \<open>barNumber - 1\<close> is an index of the direction sequence, the direction there is the
  requested one and, when a class is asked for, the body-ratio class there is that class.
  A view is surfaced when it has at least 5 bars and every constraint holds.
\<close>

definition requested_class :: "bar_filter \<Rightarrow> string option" where
  "requested_class bf =
     (case bf_bodyRatio bf of
        None \<Rightarrow> None
      | Some cls \<Rightarrow> if cls = [] \<or> cls = ''any'' then None else Some cls)"

definition constraint_holds :: "'a chart_entry_scheme \<Rightarrow> bar_filter \<Rightarrow> bool" where
  "constraint_holds v bf \<longleftrightarrow>
     (\<exists>i<length (barDirections v).
        of_nat i = bf_bar bf - 1 \<and>
        barDirections v ! i = bf_direction bf \<and>
        (case requested_class bf of
           None \<Rightarrow> True
         | Some cls \<Rightarrow> i < length (bodyRatios v) \<and> bodyRatios v ! i = cls))"

definition surfaced :: "'a chart_entry_scheme \<Rightarrow> bar_filter list \<Rightarrow> bool" where
  "surfaced v bfs \<longleftrightarrow> 5 \<le> length (bars v) \<and> (\<forall>bf\<in>set bfs. constraint_holds v bf)"

section \<open>Example inputs\<close>

definition example_entry :: "bar list \<Rightarrow> chart_entry" where
  "example_entry bs =
     \<lparr>source = ''ES'', timezone = ''America/Chicago'', tradingHours = ''08:30-15:00'',
      date = ''20240102'', gapDirection = ''up'', gapSizeClass = ''small'',
      openAbovePrevHigh = Some True, closeBelowPrevLow = Some False,
      prevClose = Some 99, prevHigh = Some 101, prevLow = Some 97,
      bars = bs, barDirections = [], bodyRatios = []\<rparr>"

definition ohlc :: "int \<Rightarrow> rat \<Rightarrow> rat \<Rightarrow> rat \<Rightarrow> rat \<Rightarrow> bar" where
  "ohlc t o' h l c = \<lparr>timestamp = t, bar_open = o', high = h, low = l, close = c\<rparr>"

definition long_params :: "rat \<Rightarrow> rat \<Rightarrow> rat \<Rightarrow> trade_params" where
  "long_params n tp sp = \<lparr>triggerBar = n, direction = ''Long'', targetPct = tp, stopPct = sp\<rparr>"

definition example_view :: "string \<Rightarrow> bar list \<Rightarrow> chart_view" where
  "example_view k bs =
     chart_data.extend
       (chart_entry.extend (example_entry bs) (chart_data.fields ''5min'' 999))
       (chart_view.fields k)"


text \<open>
  A day of five bars, the filter specification with every dimension left out, two entries
  with that day (the second from another source and without the first prior-day flag),
  and two per-bar constraints.
\<close>

definition five_bars :: "bar list" where
  "five_bars =
     [ohlc 0 100 108 98 105, ohlc 1 105 111 103 110, ohlc 2 110 112 109 111,
      ohlc 3 111 113 107 108, ohlc 4 108 109 101 102]"

definition no_filters :: filters where
  "no_filters =
     \<lparr>f_sources = None, f_frequencies = None, f_barsOptions = None, f_gapDirections = None,
      f_gapSizeClasses = None, f_prevDayFilters = None, f_barFilters = None\<rparr>"

definition two_entries :: "chart_entry list" where
  "two_entries =
     [example_entry five_bars,
      (example_entry five_bars)\<lparr>source := ''NQ'', openAbovePrevHigh := None\<rparr>]"

definition two_constraints :: "bar_filter list" where
  "two_constraints =
     [\<lparr>bf_bar = 1, bf_direction = ''UP'', bf_bodyRatio = Some ''50-75%''\<rparr>,
      \<lparr>bf_bar = 4, bf_direction = ''DOWN'', bf_bodyRatio = None\<rparr>]"

lemmas example_defs = example_entry_def ohlc_def long_params_def

section \<open>Lemmas\<close>

text \<open>The exponent is the binary order of magnitude of its argument.\<close>

lemma ilog2_bounds:
  "1 \<le> n \<Longrightarrow> 0 \<le> ilog2 n \<and> 2 ^ nat (ilog2 n) \<le> n \<and> n < 2 * 2 ^ nat (ilog2 n)"
proof (induction n rule: ilog2.induct)
  case (1 n)
  show ?case
  proof (cases "n < 2")
    case True
    with "1.prems" have "n = 1" by simp
    then show ?thesis by (simp add: ilog2.simps)
  next
    case False
    then have half: "1 \<le> n div 2" by simp
    from "1.IH" [OF False half]
    have ih: "0 \<le> ilog2 (n div 2)" "2 ^ nat (ilog2 (n div 2)) \<le> n div 2"
      "n div 2 < 2 * 2 ^ nat (ilog2 (n div 2))" by simp_all
    have eq: "ilog2 n = 1 + ilog2 (n div 2)"
      using False by (subst ilog2.simps) simp
    have n1: "nat (1 + ilog2 (n div 2)) = Suc (nat (ilog2 (n div 2)))"
      using ih(1) by simp
    have lo: "2 * 2 ^ nat (ilog2 (n div 2)) \<le> n"
      using ih(2) by linarith
    have hi: "n < 2 * (2 * 2 ^ nat (ilog2 (n div 2)))"
      using ih(3) by linarith
    show ?thesis
      unfolding eq n1 using ih(1) lo hi by simp
  qed
qed

lemma pow2_pos: "0 < pow2 k"
  by (simp add: pow2_def)

lemma pow2_diff_nat: "pow2 (int a - int b) = 2 ^ a / 2 ^ b"
proof (cases "b \<le> a")
  case True
  then have "nat (int a - int b) = a - b" by simp
  with True show ?thesis
    by (simp add: pow2_def power_diff)
next
  case False
  then have "nat (- (int a - int b)) = b - a" by simp
  moreover have "(1 :: rat) / 2 ^ (b - a) = 2 ^ a / 2 ^ b"
    using False by (simp add: power_diff)
  ultimately show ?thesis
    using False by (simp add: pow2_def)
qed

lemma pow2_Suc: "pow2 (k + 1) = 2 * pow2 k"
proof -
  consider "0 \<le> k" | "k = - 1" | "k < - 1" by linarith
  then show ?thesis
  proof cases
    case 1
    then have "nat (k + 1) = Suc (nat k)" by simp
    with 1 show ?thesis by (simp add: pow2_def)
  next
    case 2
    then show ?thesis by (simp add: pow2_def)
  next
    case 3
    then have "nat (- k) = Suc (nat (- (k + 1)))" by simp
    with 3 show ?thesis by (simp add: pow2_def)
  qed
qed

lemma round_even_near: "\<bar>of_int (round_even y) - y\<bar> \<le> 1 / 2"
proof -
  define m where "m = \<lfloor>y\<rfloor>"
  define r where "r = y - of_int m"
  have r: "0 \<le> r" "r < 1" unfolding r_def m_def by linarith+
  have y: "y = of_int m + r" by (simp add: r_def)
  have "round_even y = (if r < 1 / 2 then m else if 1 / 2 < r then m + 1
      else if even m then m else m + 1)"
    by (simp add: round_even_def Let_def m_def r_def)
  then show ?thesis
    using r unfolding y by (auto simp add: abs_if)
qed


lemma pow2_powi: "pow2 k = 2 powi k"
  by (simp add: pow2_def power_int_def inverse_eq_divide power_one_over)

lemma pow2_mono: "j \<le> k \<Longrightarrow> pow2 j \<le> pow2 k"
  unfolding pow2_powi by (rule power_int_increasing) simp_all

lemma pow2_shift: "pow2 (k + 1) = 2 ^ 53 * pow2 (k - 52)"
proof -
  have "k + 1 = 53 + (k - 52)" by simp
  then have "pow2 (k + 1) = 2 powi (53 + (k - 52))" by (simp only: pow2_powi)
  also have "\<dots> = 2 powi 53 * 2 powi (k - 52)"
    by (rule power_int_add) simp
  finally show ?thesis by (simp add: pow2_powi)
qed

lemma round_even_bound:
  assumes "\<bar>y\<bar> < 2 ^ 53"
  shows "\<bar>round_even y\<bar> \<le> 2 ^ 53"
proof (rule ccontr)
  assume "\<not> \<bar>round_even y\<bar> \<le> 2 ^ 53"
  then have "2 ^ 53 + 1 \<le> \<bar>round_even y\<bar>" by simp
  then have "(of_int (2 ^ 53 + 1) :: rat) \<le> of_int \<bar>round_even y\<bar>"
    by (simp only: of_int_le_iff)
  then have "(2 :: rat) ^ 53 + 1 \<le> \<bar>of_int (round_even y)\<bar>" by simp
  with round_even_near [of y] assms show False by linarith
qed

lemma exponent_bounds:
  assumes "0 < a"
  shows "pow2 (exponent a) \<le> a \<and> a < pow2 (exponent a + 1)"
proof -
  obtain n d where q: "quotient_of a = (n, d)" by (cases "quotient_of a")
  then have d: "0 < d" and a: "a = of_int n / of_int d"
    by (simp_all add: quotient_of_denom_pos quotient_of_div)
  from assms a d have n: "0 < n"
    by (simp add: zero_less_divide_iff)
  define bn where "bn = nat (ilog2 n)"
  define bd where "bd = nat (ilog2 d)"
  have ln: "ilog2 n = int bn" "2 ^ bn \<le> n" "n < 2 * 2 ^ bn"
    using ilog2_bounds [of n] n by (simp_all add: bn_def)
  have ld: "ilog2 d = int bd" "2 ^ bd \<le> d" "d < 2 * 2 ^ bd"
    using ilog2_bounds [of d] d by (simp_all add: bd_def)
  let ?e0 = "int bn - int bd"
  have cast: "(2 :: rat) ^ k \<le> of_int z \<and> (of_int z :: rat) < 2 * 2 ^ k"
    if "2 ^ k \<le> z" "z < 2 * 2 ^ k" for z :: int and k
  proof -
    from that have "(of_int (2 ^ k) :: rat) \<le> of_int z" "(of_int z :: rat) < of_int (2 * 2 ^ k)"
      by (simp_all only: of_int_le_iff of_int_less_iff)
    then show ?thesis by simp
  qed
  have rn: "(2 :: rat) ^ bn \<le> of_int n" "(of_int n :: rat) < 2 * 2 ^ bn"
    using cast [OF ln(2,3)] by simp_all
  have rd: "(2 :: rat) ^ bd \<le> of_int d" "(of_int d :: rat) < 2 * 2 ^ bd"
    using cast [OF ld(2,3)] by simp_all
  have dpos: "(0 :: rat) < of_int d" using d by simp
  have p0: "pow2 ?e0 = 2 ^ bn / 2 ^ bd" by (rule pow2_diff_nat)
  have up: "a < pow2 (?e0 + 1)"
  proof -
    have npos: "(0 :: rat) \<le> of_int n" using n by simp
    have "of_int n * (2 :: rat) ^ bd < (2 * 2 ^ bn) * of_int d"
      using rn(2) rd(1) dpos npos
      by (intro mult_less_le_imp_less) simp_all
    then have "a < 2 * (2 ^ bn / 2 ^ bd)"
      unfolding a using dpos by (simp add: field_simps)
    then show ?thesis by (simp add: pow2_Suc p0)
  qed
  have low: "pow2 (?e0 - 1) \<le> a"
  proof -
    have npos: "(0 :: rat) \<le> of_int n" using n by simp
    have "(2 :: rat) ^ bn * of_int d \<le> of_int n * (2 * 2 ^ bd)"
      using rn(1) rd(2) dpos npos
      by (intro mult_mono) simp_all
    then have "2 ^ bn / 2 ^ bd \<le> 2 * a"
      unfolding a using dpos by (simp add: field_simps)
    moreover have "pow2 ?e0 = 2 * pow2 (?e0 - 1)"
      using pow2_Suc [of "?e0 - 1"] by simp
    ultimately show ?thesis by (simp add: p0)
  qed
  have ex: "exponent a = (if pow2 ?e0 \<le> a then ?e0 else ?e0 - 1)"
    by (simp add: exponent_def q ln(1) ld(1))
  show ?thesis
  proof (cases "pow2 ?e0 \<le> a")
    case True
    with up ex show ?thesis by simp
  next
    case False
    with low ex show ?thesis by simp
  qed
qed

text \<open>
  The rounded value is a multiple of the unit in the last place with a significand of at
  most 53 bits, and at most half a unit from the exact value.
\<close>

lemma to_double_nearest:
  assumes "x \<noteq> 0"
  defines "ulp \<equiv> pow2 (max (exponent \<bar>x\<bar>) (- 1022) - 52)"
  shows "\<exists>m. to_double x = of_int m * ulp \<and> \<bar>m\<bar> \<le> 2 ^ 53 \<and> \<bar>to_double x - x\<bar> \<le> ulp / 2"
proof -
  let ?m = "round_even (x / ulp)"
  have pos: "0 < ulp" unfolding ulp_def by (rule pow2_pos)
  have td: "to_double x = of_int ?m * ulp"
    using assms(1) by (simp add: to_double_def Let_def ulp_def)
  have near: "\<bar>of_int ?m - x / ulp\<bar> \<le> 1 / 2" by (rule round_even_near)
  have "of_int ?m * ulp - x = (of_int ?m - x / ulp) * ulp"
    using pos by (simp add: left_diff_distrib)
  then have "\<bar>to_double x - x\<bar> = \<bar>of_int ?m - x / ulp\<bar> * ulp"
    unfolding td using pos by (simp only: abs_mult abs_of_pos)
  also have "\<dots> \<le> 1 / 2 * ulp"
    using near pos by (intro mult_right_mono) simp_all
  finally have err: "\<bar>to_double x - x\<bar> \<le> ulp / 2" by simp
  have "\<bar>x\<bar> < pow2 (exponent \<bar>x\<bar> + 1)"
    using exponent_bounds [of "\<bar>x\<bar>"] assms(1) by simp
  also have "pow2 (exponent \<bar>x\<bar> + 1) \<le> pow2 (max (exponent \<bar>x\<bar>) (- 1022) + 1)"
    by (simp add: pow2_mono)
  also have "\<dots> = 2 ^ 53 * ulp"
    unfolding ulp_def by (simp add: pow2_shift)
  finally have "\<bar>x / ulp\<bar> < 2 ^ 53"
    using pos by (simp add: abs_divide pos_divide_less_eq abs_of_pos)
  then have "\<bar>?m\<bar> \<le> 2 ^ 53"
    by (rule round_even_bound)
  with td err show ?thesis by blast
qed

text \<open>
  Double arithmetic at known values: 0.1 is not a double, 0.1 + 0.2 is not 0.3, the
  integers from \<open>2^53\<close> on are rounded, and 56 / 100 * 25 is not 14.
\<close>

lemma double_examples:
  "to_double (1 / 10) = 3602879701896397 / 2 ^ 55"
  "dadd (to_double (1 / 10)) (to_double (2 / 10)) = 1351079888211149 / 2 ^ 52"
  "to_double (3 / 10) = 5404319552844595 / 2 ^ 54"
  "to_double (2 ^ 53 + 1) = 2 ^ 53"
  "to_double (2 ^ 53 + 3) = 2 ^ 53 + 4"
  "to_double (- 7 / 3) = - (5254199565265579 / 2 ^ 51)"
  "dmul (ddiv 56 100) 25 = 14 + 1 / 2 ^ 49"
  by code_simp+

text \<open>The values of the examples below.\<close>

lemma double_values:
  "to_double 10 = 10"
  "dsub 108 98 = 10"
  "dmul (ddiv 50 100) 10 = 5"
  "dmul (ddiv 30 100) 10 = 3"
  "dmul (ddiv 20 100) 10 = 2"
  "dadd 105 5 = 110"
  "dsub 105 3 = 102"
  "dsub 105 2 = 103"
  by code_simp+

lemma js_index_of_nat:
  "js_index xs (of_nat k) = (if k < length xs then Some (xs ! k) else None)"
  by (simp add: js_index_def)

lemma int_ge1_of_nat:
  assumes "(x::rat) \<in> \<int>" and "1 \<le> x"
  obtains k where "x = of_nat (Suc k)"
proof -
  from assms(1) obtain z :: int where z: "x = of_int z" by (auto elim: Ints_cases)
  with assms(2) have "1 \<le> z" by simp
  then have "z = int (Suc (nat (z - 1)))" by simp
  then have "x = of_nat (Suc (nat (z - 1)))"
    using z by (metis of_int_of_nat_eq)
  then show thesis by (rule that)
qed

lemma scan_bars_step:
  "i < length bs \<Longrightarrow>
   scan_bars dir e tOff sOff tp sp bs i =
     (if hit_target dir tp (bs ! i) \<and> hit_stop dir sp (bs ! i) then
        \<lparr>outcome = SKIP, pnl = 0, reason = Some ''both hit'', entry = Some e,
         target = Some tp, stop = Some sp\<rparr>
      else if hit_target dir tp (bs ! i) then
        \<lparr>outcome = WIN, pnl = tOff, reason = None, entry = Some e,
         target = Some tp, stop = Some sp\<rparr>
      else if hit_stop dir sp (bs ! i) then
        \<lparr>outcome = LOSS, pnl = - sOff, reason = None, entry = Some e,
         target = Some tp, stop = Some sp\<rparr>
      else scan_bars dir e tOff sOff tp sp bs (Suc i))"
  by (subst scan_bars.simps) (simp add: hit_target_def hit_stop_def Let_def)

lemma scan_bars_end:
  "\<not> i < length bs \<Longrightarrow>
   scan_bars dir e tOff sOff tp sp bs i =
     \<lparr>outcome = SKIP, pnl = 0, reason = Some ''end of day'', entry = Some e,
      target = Some tp, stop = Some sp\<rparr>"
  by (subst scan_bars.simps) simp

lemma scan_bars_find:
  "scan_bars dir e tOff sOff tp sp bs i =
     (case find (\<lambda>b. hit_target dir tp b \<or> hit_stop dir sp b) (drop i bs) of
        None \<Rightarrow>
          \<lparr>outcome = SKIP, pnl = 0, reason = Some ''end of day'', entry = Some e,
           target = Some tp, stop = Some sp\<rparr>
      | Some b \<Rightarrow>
          if hit_target dir tp b \<and> hit_stop dir sp b then
            \<lparr>outcome = SKIP, pnl = 0, reason = Some ''both hit'', entry = Some e,
             target = Some tp, stop = Some sp\<rparr>
          else if hit_target dir tp b then
            \<lparr>outcome = WIN, pnl = tOff, reason = None, entry = Some e,
             target = Some tp, stop = Some sp\<rparr>
          else
            \<lparr>outcome = LOSS, pnl = - sOff, reason = None, entry = Some e,
             target = Some tp, stop = Some sp\<rparr>)"
proof (induction "length bs - i" arbitrary: i)
  case 0
  then show ?case by (simp add: scan_bars_end)
next
  case (Suc n)
  then have lt: "i < length bs" and n: "n = length bs - Suc i" by simp_all
  have d: "drop i bs = bs ! i # drop (Suc i) bs"
    using lt by (simp add: Cons_nth_drop_Suc)
  show ?case
    using Suc.hyps(1) [OF n] lt
    by (simp add: scan_bars_step d)
qed

lemma scan_bars_skip_pnl:
  "outcome (scan_bars dir e tOff sOff tp sp bs i) = SKIP \<Longrightarrow>
   pnl (scan_bars dir e tOff sOff tp sp bs i) = 0"
  by (auto simp add: scan_bars_find split: option.splits if_splits)

text \<open>With the trigger bar in the array, \<^verbatim>\<open>simulateOne\<close> is the range test and the scan.\<close>

lemma simulateOne_trigger:
  assumes t: "triggerBar p = of_nat (Suc k)" and k: "k < length (bars c)"
  shows "trigger_bar c p = bars c ! k"
    and "bars_after c p = drop (Suc k) (bars c)"
    and "simulateOne c p =
      (if trigger_range c p \<le> 0 then
         Inr \<lparr>outcome = SKIP, pnl = 0, reason = Some ''zero range'',
              entry = Some (close (bars c ! k)), target = None, stop = None\<rparr>
       else
         Inr (scan_bars (direction p) (close (bars c ! k)) (target_offset c p) (stop_offset c p)
                (target_price c p) (stop_price c p) (bars c) (Suc k)))"
proof -
  have idx: "triggerBar p - 1 = of_nat k"
    using t by simp
  show tb: "trigger_bar c p = bars c ! k"
    by (simp add: trigger_bar_def idx)
  have "nat \<lfloor>triggerBar p\<rfloor> = Suc k"
    unfolding t by (simp only: floor_of_nat nat_int)
  then show "bars_after c p = drop (Suc k) (bars c)"
    by (simp add: bars_after_def)
  have ji: "js_index (bars c) (triggerBar p - 1) = Some (bars c ! k)"
    unfolding idx using k by (simp add: js_index_of_nat)
  have nge: "\<not> triggerBar p - 1 \<ge> of_nat (length (bars c))"
    unfolding idx using k by simp
  show "simulateOne c p =
      (if trigger_range c p \<le> 0 then
         Inr \<lparr>outcome = SKIP, pnl = 0, reason = Some ''zero range'',
              entry = Some (close (bars c ! k)), target = None, stop = None\<rparr>
       else
         Inr (scan_bars (direction p) (close (bars c ! k)) (target_offset c p) (stop_offset c p)
                (target_price c p) (stop_price c p) (bars c) (Suc k)))"
    unfolding simulateOne_def Let_def
    using nge ji
    by (simp add: trigger_range_def target_offset_def stop_offset_def target_price_def
          stop_price_def tb idx)
qed

lemma simulateOne_not_enough:
  "triggerBar p - 1 \<ge> of_nat (length (bars c)) \<Longrightarrow>
   simulateOne c p =
     Inr \<lparr>outcome = SKIP, pnl = 0, reason = Some ''not enough bars'', entry = None,
          target = None, stop = None\<rparr>"
  by (simp add: simulateOne_def)

lemma simulateOne_total:
  assumes "triggerBar p \<in> \<int>" and "1 \<le> triggerBar p"
  shows "\<exists>r. simulateOne c p = Inr r \<and> (outcome r = SKIP \<longrightarrow> pnl r = 0)"
proof -
  from assms obtain k where t: "triggerBar p = of_nat (Suc k)"
    by (rule int_ge1_of_nat)
  show ?thesis
  proof (cases "k < length (bars c)")
    case True
    show ?thesis
      by (simp add: simulateOne_trigger(3) [OF t True] scan_bars_skip_pnl)
  next
    case False
    then have "triggerBar p - 1 \<ge> of_nat (length (bars c))"
      using t by simp
    then show ?thesis
      by (simp add: simulateOne_not_enough)
  qed
qed

section \<open>C1: the scan after the trigger bar\<close>

text \<open>
  C1: where \<^verbatim>\<open>simulateOne\<close> reaches the scan, that is for valid parameters and a view
  that has the trigger bar, with a positive range, it resolves at the first bar strictly
  after the trigger at which the target or the stop is hit (Long: target hit iff high
  \<open>\<ge>\<close> target, stop hit iff low \<open>\<le>\<close> stop; Short mirrored). Both hit there: SKIP, "both
  hit", pnl 0, with entry, target and stop reported. Only the target: WIN with
  pnl = targetOffset. Only the stop: LOSS with pnl = - stopOffset. No such bar: SKIP,
  "end of day", pnl 0. The offsets and levels are the doubles the program computes.
\<close>

theorem simulateOne_scan:
  assumes valid: "spec_valid (Some p)"
    and inside: "triggerBar p - 1 < of_nat (length (bars c))"
    and range_pos: "0 < trigger_range c p"
  shows
    "case find (fires c p) (bars_after c p) of
       None \<Rightarrow>
         simulateOne c p =
           Inr \<lparr>outcome = SKIP, pnl = 0, reason = Some ''end of day'',
                entry = Some (close (trigger_bar c p)),
                target = Some (target_price c p), stop = Some (stop_price c p)\<rparr>
     | Some b \<Rightarrow>
         if hit_target (direction p) (target_price c p) b \<and>
            hit_stop (direction p) (stop_price c p) b
         then
           simulateOne c p =
             Inr \<lparr>outcome = SKIP, pnl = 0, reason = Some ''both hit'',
                  entry = Some (close (trigger_bar c p)),
                  target = Some (target_price c p), stop = Some (stop_price c p)\<rparr>
         else if hit_target (direction p) (target_price c p) b then
           simulateOne c p =
             Inr \<lparr>outcome = WIN, pnl = target_offset c p, reason = None,
                  entry = Some (close (trigger_bar c p)),
                  target = Some (target_price c p), stop = Some (stop_price c p)\<rparr>
         else
           hit_stop (direction p) (stop_price c p) b \<and>
           simulateOne c p =
             Inr \<lparr>outcome = LOSS, pnl = - stop_offset c p, reason = None,
                  entry = Some (close (trigger_bar c p)),
                  target = Some (target_price c p), stop = Some (stop_price c p)\<rparr>"
proof -
  from valid have "triggerBar p \<in> \<int>" and "1 \<le> triggerBar p"
    by (simp_all add: spec_valid_def)
  then obtain k where t: "triggerBar p = of_nat (Suc k)"
    by (rule int_ge1_of_nat)
  with inside have k: "k < length (bars c)" by simp
  note tr = simulateOne_trigger [OF t k]
  have fires_eq: "fires c p =
      (\<lambda>b. hit_target (direction p) (target_price c p) b \<or> hit_stop (direction p) (stop_price c p) b)"
    by (rule ext) (simp add: fires_def)
  have hit: "find (fires c p) xs = Some b \<Longrightarrow> fires c p b" for xs b
    by (induction xs) (auto split: if_splits)
  from range_pos have pos: "\<not> trigger_range c p \<le> 0"
    by simp
  have run: "simulateOne c p =
      Inr (scan_bars (direction p) (close (trigger_bar c p)) (target_offset c p) (stop_offset c p)
             (target_price c p) (stop_price c p) (bars c) (Suc k))"
    unfolding tr(3) tr(1) using pos by (simp only: if_False)
  show ?thesis
    unfolding run scan_bars_find tr(2) fires_eq [symmetric]
    using hit [of "drop (Suc k) (bars c)"]
    by (auto split: option.splits simp: fires_def)
qed

text \<open>
  Witness for C1. In the first view the second bar fires neither level and the third
  hits the target only. In the second view, with a target of 56%, the target offset is
  the double next above 14 and the target the double next above 15, so that a high of
  15 does not hit it and the day ends without a resolution.
\<close>

theorem simulateOne_scan_witness:
  "spec_valid (Some (long_params 1 50 30)) \<and>
   simulateOne
     (example_entry [ohlc 0 100 108 98 105, ohlc 1 105 107 104 106, ohlc 2 106 111 104 110])
     (long_params 1 50 30) =
     Inr \<lparr>outcome = WIN, pnl = 5, reason = None, entry = Some 105, target = Some 110,
          stop = Some 102\<rparr> \<and>
   spec_valid (Some (long_params 1 56 50)) \<and>
   simulateOne (example_entry [ohlc 0 1 26 1 1, ohlc 1 1 15 2 10]) (long_params 1 56 50) =
     Inr \<lparr>outcome = SKIP, pnl = 0, reason = Some ''end of day'', entry = Some 1,
          target = Some (15 + 1 / 2 ^ 49), stop = Some (- 23 / 2)\<rparr>"
proof -
  let ?c1 = "example_entry
    [ohlc 0 100 108 98 105, ohlc 1 105 107 104 106, ohlc 2 106 111 104 110]"
  let ?p1 = "long_params 1 50 30"
  let ?c2 = "example_entry [ohlc 0 1 26 1 1, ohlc 1 1 15 2 10]"
  let ?p2 = "long_params 1 56 50"
  have v: "spec_valid (Some ?p1)" "spec_valid (Some ?p2)"
    by (simp_all add: spec_valid_def long_params_def)
  have inside: "triggerBar ?p1 - 1 < of_nat (length (bars ?c1))"
    "triggerBar ?p2 - 1 < of_nat (length (bars ?c2))"
    by (simp_all add: example_defs)
  have q1: "trigger_range ?c1 ?p1 = 10" "target_offset ?c1 ?p1 = 5" "stop_offset ?c1 ?p1 = 3"
    "target_price ?c1 ?p1 = 110" "stop_price ?c1 ?p1 = 102" "close (trigger_bar ?c1 ?p1) = 105"
    by code_simp+
  have q2: "trigger_range ?c2 ?p2 = 25" "target_price ?c2 ?p2 = 15 + 1 / 2 ^ 49"
    "stop_price ?c2 ?p2 = - 23 / 2" "close (trigger_bar ?c2 ?p2) = 1"
    by code_simp+
  have f1: "find (fires ?c1 ?p1) (bars_after ?c1 ?p1) = Some (ohlc 2 106 111 104 110)"
    by code_simp
  have f2: "find (fires ?c2 ?p2) (bars_after ?c2 ?p2) = None"
    by code_simp
  have h1: "hit_target (direction ?p1) 110 (ohlc 2 106 111 104 110)"
    "\<not> hit_stop (direction ?p1) 102 (ohlc 2 106 111 104 110)"
    by (simp_all add: hit_target_def hit_stop_def example_defs)
  have r1: "0 < trigger_range ?c1 ?p1" and r2: "0 < trigger_range ?c2 ?p2"
    by (simp_all add: q1 q2)
  show ?thesis
    using simulateOne_scan [OF v(1) inside(1) r1] simulateOne_scan [OF v(2) inside(2) r2] v
    by (simp add: f1 f2 q1 q2 h1)
qed

section \<open>C2: the win scenario\<close>

text \<open>
  C2 fails on the code: with a trigger bar of close 105 and range 10, a stop percentage of
  20 puts the stop at 105 - 2 = 103, not 101 (20 / 100 * 10 is exactly 2 in doubles). A
  next bar with high 111 and low 103 hits the target (111 \<open>\<ge>\<close> 110) and the stop
  (103 \<open>\<le>\<close> 103), so the result is the "both hit" skip with pnl 0, not a win.
\<close>

theorem simulateOne_scenario_counterexample:
  "simulateOne (example_entry [ohlc 0 100 108 98 105, ohlc 1 105 111 103 110])
     (long_params 1 50 20) =
     Inr \<lparr>outcome = SKIP, pnl = 0, reason = Some ''both hit'', entry = Some 105,
          target = Some 110, stop = Some 103\<rparr>"
  by code_simp

text \<open>
  C2 (amended): for a Long trade on a view whose trigger bar has close 105 and range 10,
  with targetPct = 50 and stopPct = 20, the target price is 110 and the stop price is 103;
  where the single bar after the trigger has high 111, \<^verbatim>\<open>simulateOne\<close> returns SKIP
  with reason "both hit" and pnl 0 when that bar's low is at most 103, and WIN with
  pnl = 5 when its low is above 103.
\<close>

theorem simulateOne_scenario:
  assumes long: "direction p = ''Long''"
    and pcts: "targetPct p = 50" "stopPct p = 20"
    and trig: "triggerBar p = of_nat (Suc (length pre))"
    and view: "bars c = pre @ [trigger, following]"
    and tbar: "close trigger = 105" "high trigger - low trigger = 10"
    and nbar: "high following = 111"
  shows "target_price c p = 110 \<and> stop_price c p = 103 \<and>
    simulateOne c p =
      (if low following \<le> 103 then
         Inr \<lparr>outcome = SKIP, pnl = 0, reason = Some ''both hit'', entry = Some 105,
              target = Some 110, stop = Some 103\<rparr>
       else
         Inr \<lparr>outcome = WIN, pnl = 5, reason = None, entry = Some 105,
              target = Some 110, stop = Some 103\<rparr>)"
proof -
  have k: "length pre < length (bars c)" by (simp add: view)
  note tr = simulateOne_trigger [OF trig k]
  have tb: "trigger_bar c p = trigger" by (simp add: tr(1) view)
  have rng: "trigger_range c p = 10"
    by (simp add: trigger_range_def tb dsub_def tbar double_values)
  have offs: "target_offset c p = 5" "stop_offset c p = 2"
    by (simp_all add: target_offset_def stop_offset_def rng pcts double_values)
  have prices: "target_price c p = 110" "stop_price c p = 103"
    by (simp_all add: target_price_def stop_price_def long tb tbar offs double_values)
  have after: "drop (Suc (length pre)) (bars c) = [following]" by (simp add: view)
  have at: "bars c ! length pre = trigger" by (simp add: view)
  have "simulateOne c p =
      Inr (scan_bars ''Long'' 105 5 2 110 103 (bars c) (Suc (length pre)))"
    by (simp add: tr(3) rng at tbar offs prices long)
  then show ?thesis
    by (simp add: prices scan_bars_find after hit_target_def hit_stop_def nbar)
qed

text \<open>Witness for C2: the next bar has high 111 and low 104, and the trade wins 5.\<close>

theorem simulateOne_scenario_witness:
  "simulateOne (example_entry [ohlc 0 100 108 98 105, ohlc 1 105 111 104 110])
     (long_params 1 50 20) =
     Inr \<lparr>outcome = WIN, pnl = 5, reason = None, entry = Some 105,
          target = Some 110, stop = Some 103\<rparr>"
  using simulateOne_scenario
    [where p = "long_params 1 50 20" and pre = "[]"
       and c = "example_entry [ohlc 0 100 108 98 105, ohlc 1 105 111 104 110]"
       and trigger = "ohlc 0 100 108 98 105" and following = "ohlc 1 105 111 104 110"]
  by (simp add: example_defs)

section \<open>C7: degenerate inputs\<close>

text \<open>
  C7 is what the code means to do and misses. With \<open>triggerBar = 3/2\<close>, which passes
  \<^verbatim>\<open>isValid\<close>, the index is 1/2: the test against the number of bars lets it through,
  \<^verbatim>\<open>bars[0.5]\<close> is \<^verbatim>\<open>undefined\<close>, and reading its close throws a TypeError, out of
  \<^verbatim>\<open>simulateOne\<close> and out of \<^verbatim>\<open>simulate\<close>.
\<close>

theorem simulateOne_fractional_trigger:
  "isValid (Some (long_params (3 / 2) 50 50)) \<and>
   simulateOne (example_entry [ohlc 0 100 108 98 105]) (long_params (3 / 2) 50 50)
     = Inl TypeError \<and>
   simulate [example_view ''ES-20240102-5min-999'' [ohlc 0 100 108 98 105]]
     (Some (long_params (3 / 2) 50 50)) = Inl TypeError"
  by code_simp

text \<open>
  For an integer \<open>triggerBar\<close> of at least 1 the degenerate inputs are resolved as the
  specification says, and nothing is raised; a trigger index beyond the bars gives the
  "not enough bars" skip for every \<open>triggerBar\<close>.
\<close>

lemma simulateOne_degenerate_integer:
  "(triggerBar p - 1 \<ge> of_nat (length (bars c)) \<longrightarrow>
      simulateOne c p =
        Inr \<lparr>outcome = SKIP, pnl = 0, reason = Some ''not enough bars'', entry = None,
             target = None, stop = None\<rparr>) \<and>
   (triggerBar p \<in> \<int> \<and> 1 \<le> triggerBar p \<longrightarrow>
      (\<exists>r. simulateOne c p = Inr r) \<and>
      (triggerBar p - 1 < of_nat (length (bars c)) \<and> trigger_range c p \<le> 0 \<longrightarrow>
         simulateOne c p =
           Inr \<lparr>outcome = SKIP, pnl = 0, reason = Some ''zero range'',
                entry = Some (close (trigger_bar c p)), target = None, stop = None\<rparr>))"
proof (intro conjI impI)
  assume "triggerBar p - 1 \<ge> of_nat (length (bars c))"
  then show "simulateOne c p =
        Inr \<lparr>outcome = SKIP, pnl = 0, reason = Some ''not enough bars'', entry = None,
             target = None, stop = None\<rparr>"
    by (rule simulateOne_not_enough)
next
  assume "triggerBar p \<in> \<int> \<and> 1 \<le> triggerBar p"
  then show "\<exists>r. simulateOne c p = Inr r"
    using simulateOne_total [of p c] by blast
next
  assume int: "triggerBar p \<in> \<int> \<and> 1 \<le> triggerBar p"
    and deg: "triggerBar p - 1 < of_nat (length (bars c)) \<and> trigger_range c p \<le> 0"
  from int obtain k where t: "triggerBar p = of_nat (Suc k)"
    by (blast elim: int_ge1_of_nat)
  with deg have k: "k < length (bars c)" by simp
  note tr = simulateOne_trigger [OF t k]
  from deg show "simulateOne c p =
           Inr \<lparr>outcome = SKIP, pnl = 0, reason = Some ''zero range'',
                entry = Some (close (trigger_bar c p)), target = None, stop = None\<rparr>"
    unfolding tr(3) tr(1) by (simp only: if_True)
qed

section \<open>Lemmas on the simulation of a list of views\<close>

lemma example_view_bars [simp]: "bars (example_view k bs) = bs"
  by (simp add: example_view_def example_entry_def chart_entry.defs chart_data.defs chart_view.defs)

lemma example_view_key [simp]: "key (example_view k bs) = k"
  by (simp add: example_view_def example_entry_def chart_entry.defs chart_data.defs chart_view.defs)

lemma tag_trade_simps [simp]:
  "trade_key (tag_trade c r) = key c"
  "outcome (tag_trade c r) = outcome r"
  "pnl (tag_trade c r) = pnl r"
  "trade_result.truncate (tag_trade c r) = r"
  by (simp_all add: tag_trade_def trade_result.defs trade.defs)









section \<open>C6: the aggregate statistics\<close>



section \<open>C10: one trade per view\<close>



section \<open>C3: the validity gate\<close>

lemma pos_int_ge1:
  assumes "(x :: rat) \<in> \<int>"
  shows "0 < x \<longleftrightarrow> 1 \<le> x"
proof -
  from assms obtain z :: int where z: "x = of_int z" by (auto elim: Ints_cases)
  have "0 < z \<longleftrightarrow> 1 \<le> z" by linarith
  then show ?thesis unfolding z by (simp only: of_int_0_less_iff of_int_1_le_iff)
qed

lemma half_not_int: "(1 / 2 :: rat) \<notin> \<int>"
proof
  assume "(1 / 2 :: rat) \<in> \<int>"
  then have "1 \<le> \<bar>1 / 2 :: rat\<bar>"
    by (rule Ints_nonzero_abs_ge1) simp
  then show False by simp
qed

text \<open>
  Where \<^verbatim>\<open>isValid\<close> does what C3 says: invalid parameters give \<^verbatim>\<open>null\<close> whatever the
  views, and for an integer \<open>triggerBar\<close> the test is the validation of the
  specification.
\<close>

lemma simulate_invalid: "\<not> isValid params \<Longrightarrow> simulate charts params = Inr None"
  by (simp add: simulate_def)

lemma isValid_integer:
  "triggerBar p \<in> \<int> \<Longrightarrow> isValid (Some p) = spec_valid (Some p)"
  by (simp add: isValid_def spec_valid_def pos_int_ge1)

text \<open>
  C3 is what the code means to do and misses: \<^verbatim>\<open>isValid\<close> tests \<open>triggerBar > 0\<close> and
  not that \<open>triggerBar\<close> is an integer, although the next use of it is as an array index.
  With \<open>triggerBar = 1/2\<close>, which the validation of C3 rejects, \<^verbatim>\<open>simulate\<close> on an empty
  list of views returns a zero-trade statistics object, not \<^verbatim>\<open>null\<close>, and on a view with
  a bar it goes on to \<^verbatim>\<open>simulateOne\<close>, which throws a TypeError.
\<close>

theorem simulate_fractional_trigger:
  "\<not> spec_valid (Some (long_params (1 / 2) 50 50)) \<and>
   simulate ([] :: chart_view list) (Some (long_params (1 / 2) 50 50)) =
     Inr (Some \<lparr>wins = 0, losses = 0, skipped = 0, decisive = 0, winRate = 0, avgPnL = 0,
                trades = []\<rparr>) \<and>
   simulate [example_view ''ES-20240102-5min-999'' [ohlc 0 100 108 98 105]]
     (Some (long_params (1 / 2) 50 50)) = Inl TypeError"
proof -
  have "simulate [example_view ''ES-20240102-5min-999'' [ohlc 0 100 108 98 105]]
     (Some (long_params (1 / 2) 50 50)) = Inl TypeError"
    by code_simp
  then show ?thesis
    by (simp add: spec_valid_def long_params_def half_not_int simulate_def isValid_def)
qed

section \<open>C8: the body-ratio classes\<close>



section \<open>C5: aggregation\<close>

lemma fold_max_Max: "fold max (map f xs) (f x) = Max (f ` set (x # xs))"
proof -
  have "Max (set (f x # map f xs)) = fold max (map f xs) (f x)"
    by (rule Max.set_eq_fold)
  then show ?thesis by simp
qed

lemma fold_min_Min: "fold min (map f xs) (f x) = Min (f ` set (x # xs))"
proof -
  have "Min (set (f x # map f xs)) = fold min (map f xs) (f x)"
    by (rule Min.set_eq_fold)
  then show ?thesis by simp
qed

lemma aggregate_loop_step:
  assumes "i < length bs" and "0 < k"
  shows "aggregate_loop bs k i res =
    aggregate_loop bs k (i + k) (res @ [chunk_bar (take k (drop i bs))])"
proof -
  from assms obtain c cs where ch: "take k (drop i bs) = c # cs"
    by (cases "take k (drop i bs)") auto
  have "chunk_bar (c # cs) =
      \<lparr>timestamp = timestamp c, bar_open = bar_open c,
       high = fold max (map high cs) (high c),
       low = fold min (map low cs) (low c),
       close = close (last (c # cs))\<rparr>"
    unfolding chunk_bar_def fold_max_Max fold_min_Min by simp
  then show ?thesis
    using assms by (subst aggregate_loop.simps) (simp add: ch Let_def)
qed

lemma aggregate_loop_done:
  "\<not> i < length bs \<Longrightarrow> aggregate_loop bs k i res = res"
  by (subst aggregate_loop.simps) simp

lemma div_add_step: "0 < k \<Longrightarrow> (a + k) div k = Suc (a div k)" for a k :: nat
  by simp

lemma ceil_div_step:
  fixes k m :: nat
  assumes "0 < k" and "0 < m"
  shows "(m + k - 1) div k = Suc ((m - k + k - 1) div k)"
proof (cases "k \<le> m")
  case True
  then have "m + k - 1 = (m - k + k - 1) + k" using assms by simp
  then show ?thesis
    using div_add_step [OF assms(1), of "m - k + k - 1"] by (simp only:)
next
  case False
  then have small: "(m - k + k - 1) div k = 0" using assms by simp
  have "m + k - 1 = (m - 1) + k" using assms by simp
  then have "(m + k - 1) div k = Suc ((m - 1) div k)"
    using div_add_step [OF assms(1), of "m - 1"] by (simp only:)
  also have "(m - 1) div k = 0" using False assms by simp
  finally show ?thesis using small by simp
qed

lemma aggregate_loop_eq:
  assumes "0 < k"
  shows "aggregate_loop bs k i res =
    res @ map (\<lambda>j. chunk_bar (take k (drop (i + j * k) bs)))
            [0..<(length bs - i + k - 1) div k]"
proof (induction "length bs - i" arbitrary: i res rule: less_induct)
  case less
  show ?case
  proof (cases "i < length bs")
    case False
    then have "length bs - i = 0" by simp
    then have "(length bs - i + k - 1) div k = 0" using assms by simp
    with False show ?thesis by (simp add: aggregate_loop_done)
  next
    case True
    let ?n = "(length bs - (i + k) + k - 1) div k"
    have smaller: "length bs - (i + k) < length bs - i"
      using True assms by simp
    have count: "(length bs - i + k - 1) div k = Suc ?n"
      using ceil_div_step [of k "length bs - i"] True assms by (simp add: algebra_simps)
    have "aggregate_loop bs k i res =
        aggregate_loop bs k (i + k) (res @ [chunk_bar (take k (drop i bs))])"
      using True assms by (rule aggregate_loop_step)
    also have "\<dots> = (res @ [chunk_bar (take k (drop i bs))])
        @ map (\<lambda>j. chunk_bar (take k (drop (i + k + j * k) bs))) [0..<?n]"
      by (rule less.hyps [OF smaller])
    also have "\<dots> = res @ map (\<lambda>j. chunk_bar (take k (drop (i + j * k) bs))) [0..<Suc ?n]"
      by (simp add: upt_conv_Cons map_Suc_upt [symmetric] add.assoc del: upt_Suc)
    finally show ?thesis by (simp only: count)
  qed
qed


lemma chunk_bar_single [simp]: "chunk_bar [b] = b"
  by (simp add: chunk_bar_def)

lemma take_one_drop: "j < length bs \<Longrightarrow> take (Suc 0) (drop j bs) = [bs ! j]"
  by (simp add: take_Suc_conv_app_nth [of 0])

lemma chunk_index_less:
  fixes j k n :: nat
  assumes "0 < k"
  shows "j < (n + k - 1) div k \<longleftrightarrow> j * k < n"
proof -
  have "j < (n + k - 1) div k \<longleftrightarrow> Suc j \<le> (n + k - 1) div k" by auto
  also have "\<dots> \<longleftrightarrow> Suc j * k \<le> n + k - 1"
    using assms by (simp only: less_eq_div_iff_mult_less_eq)
  also have "\<dots> \<longleftrightarrow> j * k < n"
    using assms by auto
  finally show ?thesis .
qed

lemma aggregateToFrequency_eq:
  assumes "(freq, k) \<in> {(''5min'', 1), (''10min'', 2), (''15min'', 3)}"
  shows "aggregateToFrequency bs freq =
    map (\<lambda>j. chunk_bar (take k (drop (j * k) bs))) [0..<(length bs + k - 1) div k]"
proof -
  consider "freq = ''5min''" "k = 1" | "freq = ''10min''" "k = 2" | "freq = ''15min''" "k = 3"
    using assms by auto
  then show ?thesis
  proof cases
    case 1
    have "map (\<lambda>j. chunk_bar (take 1 (drop j bs))) [0..<length bs] = map (\<lambda>j. bs ! j) [0..<length bs]"
      by (rule map_cong) (simp_all add: take_one_drop)
    then show ?thesis
      using 1 by (simp add: aggregateToFrequency_def map_nth)
  next
    case 2
    then show ?thesis
      using aggregate_loop_eq [of 2 bs 0 "[]"] by (simp add: aggregateToFrequency_def)
  next
    case 3
    then show ?thesis
      using aggregate_loop_eq [of 3 bs 0 "[]"] by (simp add: aggregateToFrequency_def)
  qed
qed

lemma concat_chunks:
  "concat (map (\<lambda>j. take k (drop (j * k) bs)) [0..<n]) = take (n * k) bs"
proof (induction n)
  case 0
  show ?case by simp
next
  case (Suc n)
  have "take (n * k) bs @ take k (drop (n * k) bs) = take (n * k + k) bs"
    by (simp add: take_add)
  with Suc show ?case by (simp add: add.commute)
qed

lemma ceiling_chunks:
  fixes k n :: nat
  assumes "0 < k"
  shows "int ((n + k - 1) div k) = \<lceil>(of_nat n :: rat) / of_nat k\<rceil>"
proof -
  let ?c = "(n + k - 1) div k"
  have up: "\<not> ?c * k < n"
    using chunk_index_less [OF assms, of ?c n] by simp
  have "(of_nat n :: rat) \<le> of_nat (?c * k)"
    using up by (simp only: of_nat_le_iff not_less)
  then have le: "(of_nat n :: rat) / of_nat k \<le> of_int (int ?c)"
    using assms by (simp add: pos_divide_le_eq)
  have lt: "of_int (int ?c) - 1 < (of_nat n :: rat) / of_nat k"
  proof (cases "?c = 0")
    case True
    have "(0 :: rat) \<le> of_nat n / of_nat k" by simp
    then have "(- 1 :: rat) < of_nat n / of_nat k" by linarith
    with True show ?thesis by simp
  next
    case False
    then have "?c - 1 < ?c" by simp
    then have "(?c - 1) * k < n"
      by (simp only: chunk_index_less [OF assms])
    then have "(of_nat ((?c - 1) * k) :: rat) < of_nat n"
      by (simp only: of_nat_less_iff)
    moreover have "(of_nat ((?c - 1) * k) :: rat) = (of_int (int ?c) - 1) * of_nat k"
      using False by (simp add: of_nat_diff algebra_simps)
    ultimately show ?thesis
      using assms by (simp add: pos_less_divide_eq)
  qed
  show ?thesis
    using le lt by (simp add: ceiling_eq_iff [THEN iffD2, symmetric])
qed

text \<open>
  C5: for a bar list of length N and a supported frequency with factor k (1 for "5min",
  2 for "10min", 3 for "15min"), \<^verbatim>\<open>aggregateToFrequency\<close> returns \<open>\<lceil>N / k\<rceil>\<close> bars; the
  chunks \<open>take k (drop (j * k) bars)\<close> are not empty, have k bars except possibly the last,
  and together are the input; the bar of a chunk has the timestamp and the open of the
  chunk's first bar, the maximum of its highs, the minimum of its lows and the close of
  its last bar; for k = 1 the output is the input.
\<close>

theorem aggregateToFrequency_chunks:
  assumes "(freq, k) \<in> {(''5min'', 1), (''10min'', 2), (''15min'', 3)}"
  shows
    "int (length (aggregateToFrequency bs freq)) = \<lceil>(of_nat (length bs) :: rat) / of_nat k\<rceil> \<and>
     concat (map (\<lambda>j. take k (drop (j * k) bs)) [0..<length (aggregateToFrequency bs freq)])
       = bs \<and>
     (\<forall>j<length (aggregateToFrequency bs freq).
        (let chunk = take k (drop (j * k) bs); out = aggregateToFrequency bs freq ! j in
         chunk \<noteq> [] \<and> length chunk \<le> k \<and>
         (Suc j < length (aggregateToFrequency bs freq) \<longrightarrow> length chunk = k) \<and>
         timestamp out = timestamp (hd chunk) \<and>
         bar_open out = bar_open (hd chunk) \<and>
         high out = Max (high ` set chunk) \<and>
         low out = Min (low ` set chunk) \<and>
         close out = close (last chunk))) \<and>
     (k = 1 \<longrightarrow> aggregateToFrequency bs freq = bs)"
proof -
  from assms have k: "0 < k" by auto
  let ?n = "(length bs + k - 1) div k"
  note eq = aggregateToFrequency_eq [OF assms, of bs]
  have len: "length (aggregateToFrequency bs freq) = ?n"
    by (simp add: eq)
  have idx: "j < ?n \<longleftrightarrow> j * k < length bs" for j
    using k by (rule chunk_index_less)
  have "\<not> ?n * k < length bs" using idx [of ?n] by simp
  then have cover: "take (?n * k) bs = bs" by simp
  have chunks: "take k (drop (j * k) bs) \<noteq> [] \<and> length (take k (drop (j * k) bs)) \<le> k \<and>
      (Suc j < ?n \<longrightarrow> length (take k (drop (j * k) bs)) = k) \<and>
      aggregateToFrequency bs freq ! j = chunk_bar (take k (drop (j * k) bs))"
    if j: "j < ?n" for j
  proof (intro conjI impI)
    from j have "j * k < length bs" by (simp only: idx)
    then show "take k (drop (j * k) bs) \<noteq> []" using k by simp
    show "length (take k (drop (j * k) bs)) \<le> k" by simp
    show "aggregateToFrequency bs freq ! j = chunk_bar (take k (drop (j * k) bs))"
      using j by (simp add: eq)
  next
    assume "Suc j < ?n"
    then have "Suc j * k < length bs" by (simp only: idx)
    then show "length (take k (drop (j * k) bs)) = k" by simp
  qed
  have one: "aggregateToFrequency bs freq = bs" if "k = 1"
    using assms that by (auto simp add: aggregateToFrequency_def)
  show ?thesis
    unfolding len
    using ceiling_chunks [OF k, of "length bs"] cover chunks one
    by (simp add: concat_chunks Let_def chunk_bar_def)
qed

text \<open>Witness for C5: five bars at "10min" give three bars, the last from a chunk of one.\<close>

theorem aggregateToFrequency_chunks_witness:
  "aggregateToFrequency
     [ohlc 0 100 108 98 105, ohlc 1 105 111 103 110, ohlc 2 110 112 109 111,
      ohlc 3 111 113 107 108, ohlc 4 108 109 101 102] ''10min'' =
     [ohlc 0 100 111 98 110, ohlc 2 110 113 107 108, ohlc 4 108 109 101 102] \<and>
   int (length (aggregateToFrequency
     [ohlc 0 100 108 98 105, ohlc 1 105 111 103 110, ohlc 2 110 112 109 111,
      ohlc 3 111 113 107 108, ohlc 4 108 109 101 102] ''10min'')) = \<lceil>(5 :: rat) / 2\<rceil>"
  using aggregateToFrequency_chunks
    [where freq = "''10min''" and k = 2
       and bs = "[ohlc 0 100 108 98 105, ohlc 1 105 111 103 110, ohlc 2 110 112 109 111,
                  ohlc 3 111 113 107 108, ohlc 4 108 109 101 102]"]
  by (simp add: ohlc_def aggregateToFrequency_def aggregate_loop.simps)

section \<open>Lemmas on the filters\<close>

lemma js_index_Some_iff:
  "js_index xs x = Some y \<longleftrightarrow> (\<exists>i<length xs. of_nat i = x \<and> xs ! i = y)"
proof
  assume "js_index xs x = Some y"
  then have int: "of_int \<lfloor>x\<rfloor> = x" and nonneg: "0 \<le> x" and lt: "x < of_nat (length xs)"
    and y: "xs ! nat \<lfloor>x\<rfloor> = y"
    by (simp_all add: js_index_def split: if_splits)
  from nonneg have "0 \<le> \<lfloor>x\<rfloor>" by simp
  then have "(of_nat (nat \<lfloor>x\<rfloor>) :: rat) = of_int \<lfloor>x\<rfloor>"
    by (simp only: of_nat_nat)
  with int have x: "of_nat (nat \<lfloor>x\<rfloor>) = x" by simp
  with lt have "nat \<lfloor>x\<rfloor> < length xs"
    by (metis of_nat_less_iff)
  with x y show "\<exists>i<length xs. of_nat i = x \<and> xs ! i = y" by blast
next
  assume "\<exists>i<length xs. of_nat i = x \<and> xs ! i = y"
  then obtain i where "i < length xs" "of_nat i = x" "xs ! i = y" by blast
  then show "js_index xs x = Some y"
    using js_index_of_nat [of xs i] by simp
qed

lemma one_constraint:
  "constraint_holds v bf \<longleftrightarrow>
     js_index (barDirections v) (bf_bar bf - 1) = Some (bf_direction bf) \<and>
     (case requested_class bf of
        None \<Rightarrow> True
      | Some cls \<Rightarrow> js_index (bodyRatios v) (bf_bar bf - 1) = Some cls)"
proof (cases "requested_class bf")
  case None
  then show ?thesis
    by (simp add: constraint_holds_def js_index_Some_iff)
next
  case (Some cls)
  have "(\<exists>i<length (barDirections v).
          of_nat i = bf_bar bf - 1 \<and> barDirections v ! i = bf_direction bf \<and>
          i < length (bodyRatios v) \<and> bodyRatios v ! i = cls) \<longleftrightarrow>
        (\<exists>i<length (barDirections v).
          of_nat i = bf_bar bf - 1 \<and> barDirections v ! i = bf_direction bf) \<and>
        (\<exists>i<length (bodyRatios v). of_nat i = bf_bar bf - 1 \<and> bodyRatios v ! i = cls)"
    (is "?l \<longleftrightarrow> ?r")
  proof
    assume ?l then show ?r by blast
  next
    assume ?r
    then obtain i j where i: "i < length (barDirections v)" "rat_of_nat i = bf_bar bf - 1"
        "barDirections v ! i = bf_direction bf"
      and j: "j < length (bodyRatios v)" "rat_of_nat j = bf_bar bf - 1" "bodyRatios v ! j = cls"
      by blast
    from i(2) j(2) have "i = j" by (metis of_nat_eq_iff)
    with i j show ?l by blast
  qed
  with Some show ?thesis
    by (simp add: constraint_holds_def js_index_Some_iff)
qed

lemma js_index_beyond: "x \<ge> of_nat (length xs) \<Longrightarrow> js_index xs x = None"
  by (simp add: js_index_def)

lemma matchesBarFilters_iff:
  "matchesBarFilters v bfs \<longleftrightarrow> (\<forall>bf\<in>set bfs. constraint_holds v bf)"
proof (induction bfs)
  case Nil
  show ?case by simp
next
  case (Cons bf bfs)
  show ?case
  proof (cases "bf_bodyRatio bf")
    case None
    then show ?thesis
      using Cons js_index_beyond [of "barDirections v" "bf_bar bf - 1"]
      by (auto simp add: one_constraint requested_class_def Let_def)
  next
    case (Some cls)
    then show ?thesis
      using Cons js_index_beyond [of "barDirections v" "bf_bar bf - 1"]
        js_index_beyond [of "bodyRatios v" "bf_bar bf - 1"]
      by (auto simp add: one_constraint requested_class_def Let_def)
  qed
qed

lemma bars_loop_eq:
  "bars_loop pc bfs e freq barsOpts =
     concat (map (\<lambda>barsOpt.
       case getTradingDayData pc (source e) (date e) freq barsOpt of
         None \<Rightarrow> []
       | Some v \<Rightarrow> if surfaced v bfs then [with_key v (view_key e freq barsOpt)] else [])
       barsOpts)"
  by (induction barsOpts)
    (auto simp add: surfaced_def matchesBarFilters_iff split: option.splits)

lemma freq_loop_eq:
  "freq_loop pc bfs barsOpts e freqs =
     concat (map (\<lambda>freq. bars_loop pc bfs e freq barsOpts) freqs)"
  by (induction freqs) simp_all

lemma matchesPrevDay_iff:
  "matchesPrevDay e fs \<longleftrightarrow>
     (''open_above_prev_high'' \<in> set fs \<longrightarrow> openAbovePrevHigh e = Some True) \<and>
     (''close_below_prev_low'' \<in> set fs \<longrightarrow> closeBelowPrevLow e = Some True)"
  by (induction fs) auto

lemma entry_loop_eq:
  "entry_loop pc flt es =
     concat (map (\<lambda>e. freq_loop pc (or_default (f_barFilters flt) [])
                         (or_default (f_barsOptions flt) [999]) e
                         (or_default (f_frequencies flt) [''5min'']))
             (filter (admitted flt) es))"
proof (induction es)
  case Nil
  show ?case by simp
next
  case (Cons e es)
  show ?case
  proof (cases "admitted flt e")
    case True
    then show ?thesis
      using Cons by (auto simp add: admitted_def matchesPrevDay_iff Let_def)
  next
    case False
    then show ?thesis
      using Cons by (auto simp add: admitted_def matchesPrevDay_iff Let_def)
  qed
qed

lemma getTradingDayData_lengths:
  "getTradingDayData pc s d freq barsOpt = Some v \<Longrightarrow>
   length (barDirections v) = length (bars v) \<and> length (bodyRatios v) = length (bars v)"
  by (auto simp add: getTradingDayData_def Let_def calculateBarDirections_def
        calculateBodyRatios_def split: option.splits)

lemma constraint_holds_all:
  "constraint_holds v bf \<longleftrightarrow>
     (\<exists>i<length (barDirections v).
        of_nat i = bf_bar bf - 1 \<and>
        barDirections v ! i = bf_direction bf \<and>
        (\<forall>cls. requested_class bf = Some cls \<longrightarrow>
           i < length (bodyRatios v) \<and> bodyRatios v ! i = cls))"
  by (cases "requested_class bf") (simp_all add: constraint_holds_def)

lemma out_of_range_excluded:
  assumes "bf \<in> set bfs"
    and "bf_bar bf \<notin> \<int> \<or> bf_bar bf < 1 \<or> of_nat (length (barDirections w)) < bf_bar bf"
  shows "\<not> surfaced w bfs"
proof
  assume "surfaced w bfs"
  with assms(1) have "constraint_holds w bf" by (simp add: surfaced_def)
  then obtain i where i: "i < length (barDirections w)" "of_nat i = bf_bar bf - 1"
    by (auto simp add: constraint_holds_def)
  from i(2) have b: "bf_bar bf = of_nat (Suc i)" by simp
  have "bf_bar bf \<in> \<int>" unfolding b by (rule Ints_of_nat)
  moreover have "1 \<le> bf_bar bf" unfolding b by simp
  moreover have "bf_bar bf \<le> of_nat (length (barDirections w))"
    unfolding b using i(1) by (simp only: of_nat_le_iff Suc_le_eq)
  ultimately show False using assms(2) by auto
qed

section \<open>C4: the views that are surfaced\<close>

text \<open>
  C4: the views generated for an entry, one per (frequency, barsOption) pair in order,
  are surfaced exactly when they have at least 5 bars and every requested constraint
  holds: \<open>barNumber - 1\<close> is an index of the view's direction sequence, the direction
  there is the requested one and, when a non-wildcard body-ratio class is requested, the
  class there is the requested one. Any failure, also a \<open>barNumber\<close> out of range, and
  a view with fewer than 5 bars leave the view out; the function is total, nothing is
  raised. The direction and body-ratio sequences of a generated view have one element
  per bar.
\<close>

theorem getFilteredCharts_views:
  "freq_loop pc bfs barsOpts e freqs =
     concat (map (\<lambda>freq. concat (map (\<lambda>barsOpt.
       case getTradingDayData pc (source e) (date e) freq barsOpt of
         None \<Rightarrow> []
       | Some v \<Rightarrow> if surfaced v bfs then [with_key v (view_key e freq barsOpt)] else [])
       barsOpts)) freqs) \<and>
   (x \<in> set (getFilteredCharts pc flt) \<longleftrightarrow>
      (\<exists>e\<in>set pc. \<exists>freq\<in>set (or_default (f_frequencies flt) [''5min'']).
         \<exists>barsOpt\<in>set (or_default (f_barsOptions flt) [999]).
           \<exists>v. admitted flt e \<and>
               getTradingDayData pc (source e) (date e) freq barsOpt = Some v \<and>
               surfaced v (or_default (f_barFilters flt) []) \<and>
               x = with_key v (view_key e freq barsOpt))) \<and>
   (surfaced w bfs \<longleftrightarrow>
      5 \<le> length (bars w) \<and>
      (\<forall>bf\<in>set bfs. \<exists>i<length (barDirections w).
         of_nat i = bf_bar bf - 1 \<and>
         barDirections w ! i = bf_direction bf \<and>
         (\<forall>cls. requested_class bf = Some cls \<longrightarrow>
            i < length (bodyRatios w) \<and> bodyRatios w ! i = cls))) \<and>
   (getTradingDayData pc s d fr bo = Some u \<longrightarrow>
      length (barDirections u) = length (bars u) \<and> length (bodyRatios u) = length (bars u)) \<and>
   ((\<exists>bf\<in>set bfs. bf_bar bf \<notin> \<int> \<or> bf_bar bf < 1 \<or>
        of_nat (length (barDirections w)) < bf_bar bf) \<longrightarrow> \<not> surfaced w bfs) \<and>
   (length (bars w) < 5 \<longrightarrow> \<not> surfaced w bfs)"
proof (intro conjI)
  show "freq_loop pc bfs barsOpts e freqs =
     concat (map (\<lambda>freq. concat (map (\<lambda>barsOpt.
       case getTradingDayData pc (source e) (date e) freq barsOpt of
         None \<Rightarrow> []
       | Some v \<Rightarrow> if surfaced v bfs then [with_key v (view_key e freq barsOpt)] else [])
       barsOpts)) freqs)"
    by (simp add: freq_loop_eq bars_loop_eq)
  show "x \<in> set (getFilteredCharts pc flt) \<longleftrightarrow>
      (\<exists>e\<in>set pc. \<exists>freq\<in>set (or_default (f_frequencies flt) [''5min'']).
         \<exists>barsOpt\<in>set (or_default (f_barsOptions flt) [999]).
           \<exists>v. admitted flt e \<and>
               getTradingDayData pc (source e) (date e) freq barsOpt = Some v \<and>
               surfaced v (or_default (f_barFilters flt) []) \<and>
               x = with_key v (view_key e freq barsOpt))"
    unfolding getFilteredCharts_def entry_loop_eq freq_loop_eq bars_loop_eq
    by (auto split: option.splits if_splits) (metis+)
  show "surfaced w bfs \<longleftrightarrow>
      5 \<le> length (bars w) \<and>
      (\<forall>bf\<in>set bfs. \<exists>i<length (barDirections w).
         of_nat i = bf_bar bf - 1 \<and>
         barDirections w ! i = bf_direction bf \<and>
         (\<forall>cls. requested_class bf = Some cls \<longrightarrow>
            i < length (bodyRatios w) \<and> bodyRatios w ! i = cls))"
    unfolding surfaced_def by (simp add: constraint_holds_all)
  show "getTradingDayData pc s d fr bo = Some u \<longrightarrow>
      length (barDirections u) = length (bars u) \<and> length (bodyRatios u) = length (bars u)"
    using getTradingDayData_lengths by blast
  show "(\<exists>bf\<in>set bfs. bf_bar bf \<notin> \<int> \<or> bf_bar bf < 1 \<or>
        of_nat (length (barDirections w)) < bf_bar bf) \<longrightarrow> \<not> surfaced w bfs"
    using out_of_range_excluded by blast
  show "length (bars w) < 5 \<longrightarrow> \<not> surfaced w bfs"
    by (simp add: surfaced_def)
qed

text \<open>
  Witness for C4: with the two constraints, both entries surface their full-day 5-minute
  view (the 10-minute and the 3-bar views have fewer than 5 bars), and a generated view
  satisfies the constraints; a constraint on bar 6 of a five-bar day, or on bar 0,
  surfaces nothing.
\<close>

theorem getFilteredCharts_views_witness:
  "map key (getFilteredCharts two_entries
     (no_filters\<lparr>f_frequencies := Some [''5min'', ''10min''], f_barsOptions := Some [999, 3],
        f_barFilters := Some two_constraints\<rparr>))
     = [''ES-20240102-5min-999'', ''NQ-20240102-5min-999''] \<and>
   (\<exists>e\<in>set two_entries. \<exists>freq barsOpt v.
      getTradingDayData two_entries (source e) (date e) freq barsOpt = Some v \<and>
      surfaced v two_constraints) \<and>
   getFilteredCharts two_entries
     (no_filters\<lparr>f_barFilters :=
        Some [\<lparr>bf_bar = 6, bf_direction = ''UP'', bf_bodyRatio = None\<rparr>]\<rparr>) = [] \<and>
   getFilteredCharts two_entries
     (no_filters\<lparr>f_barFilters :=
        Some [\<lparr>bf_bar = 0, bf_direction = ''UP'', bf_bodyRatio = None\<rparr>]\<rparr>) = []"
proof -
  let ?flt = "no_filters\<lparr>f_frequencies := Some [''5min'', ''10min''],
    f_barsOptions := Some [999, 3], f_barFilters := Some two_constraints\<rparr>"
  have ev: "map key (getFilteredCharts two_entries ?flt)
      = [''ES-20240102-5min-999'', ''NQ-20240102-5min-999'']"
    by code_simp
  then have "getFilteredCharts two_entries ?flt \<noteq> []" by auto
  then obtain x where x: "x \<in> set (getFilteredCharts two_entries ?flt)"
    by (cases "getFilteredCharts two_entries ?flt") auto
  have bfs: "or_default (f_barFilters ?flt) [] = two_constraints"
    by (simp add: or_default_def no_filters_def)
  from x have "\<exists>e\<in>set two_entries. \<exists>freq barsOpt v.
      getTradingDayData two_entries (source e) (date e) freq barsOpt = Some v \<and>
      surfaced v two_constraints"
    unfolding getFilteredCharts_views
      [where x = x and pc = two_entries and flt = ?flt, THEN conjunct2, THEN conjunct1] bfs
    by blast
  moreover have "getFilteredCharts two_entries
     (no_filters\<lparr>f_barFilters :=
        Some [\<lparr>bf_bar = 6, bf_direction = ''UP'', bf_bodyRatio = None\<rparr>]\<rparr>) = [] \<and>
   getFilteredCharts two_entries
     (no_filters\<lparr>f_barFilters :=
        Some [\<lparr>bf_bar = 0, bf_direction = ''UP'', bf_bodyRatio = None\<rparr>]\<rparr>) = []"
    by code_simp
  ultimately show ?thesis using ev by blast
qed

section \<open>C9: the filter on entries\<close>

text \<open>
  C9: \<^verbatim>\<open>getFilteredCharts\<close> generates views for exactly the entries admitted by the
  conjunction of the dimensions, in order: sources, gap directions and gap size classes
  each admit an entry iff the selection is empty or contains the entry's value, and each
  requested prior-day flag requires the entry's flag to be exactly true.
\<close>

theorem getFilteredCharts_entries:
  "getFilteredCharts pc flt =
     concat (map (\<lambda>e. freq_loop pc (or_default (f_barFilters flt) [])
                         (or_default (f_barsOptions flt) [999]) e
                         (or_default (f_frequencies flt) [''5min'']))
             (filter (admitted flt) pc)) \<and>
   (admitted flt e \<longleftrightarrow>
      (let srcs = or_default (f_sources flt) [];
           gapDirs = or_default (f_gapDirections flt) [];
           gapSizes = or_default (f_gapSizeClasses flt) [];
           prevDays = or_default (f_prevDayFilters flt) []
       in (srcs = [] \<or> source e \<in> set srcs) \<and>
          (gapDirs = [] \<or> gapDirection e \<in> set gapDirs) \<and>
          (gapSizes = [] \<or> gapSizeClass e \<in> set gapSizes) \<and>
          (''open_above_prev_high'' \<in> set prevDays \<longrightarrow> openAbovePrevHigh e = Some True) \<and>
          (''close_below_prev_low'' \<in> set prevDays \<longrightarrow> closeBelowPrevLow e = Some True)))"
  by (simp add: getFilteredCharts_def entry_loop_eq admitted_def Let_def)

text \<open>
  Witness for C9: a source selection, one prior-day flag, both prior-day flags, a gap
  direction that no entry has, and two selections that admit both entries.
\<close>

theorem getFilteredCharts_entries_witness:
  "map key (getFilteredCharts two_entries (no_filters\<lparr>f_sources := Some [''NQ'']\<rparr>))
     = [''NQ-20240102-5min-999''] \<and>
   map key (getFilteredCharts two_entries
     (no_filters\<lparr>f_prevDayFilters := Some [''open_above_prev_high'']\<rparr>))
     = [''ES-20240102-5min-999''] \<and>
   getFilteredCharts two_entries
     (no_filters\<lparr>f_prevDayFilters := Some [''open_above_prev_high'', ''close_below_prev_low'']\<rparr>)
     = [] \<and>
   getFilteredCharts two_entries (no_filters\<lparr>f_gapDirections := Some [''down'']\<rparr>) = [] \<and>
   map key (getFilteredCharts two_entries
     (no_filters\<lparr>f_gapDirections := Some [''down'', ''up''], f_gapSizeClasses := Some [''small'']\<rparr>))
     = [''ES-20240102-5min-999'', ''NQ-20240102-5min-999'']"
proof -
  note eq1 = getFilteredCharts_entries
    [where pc = two_entries and flt = "no_filters\<lparr>f_sources := Some [''NQ'']\<rparr>",
     THEN conjunct1]
  note eq2 = getFilteredCharts_entries
    [where pc = two_entries
       and flt = "no_filters\<lparr>f_prevDayFilters := Some [''open_above_prev_high'']\<rparr>",
     THEN conjunct1]
  note eq3 = getFilteredCharts_entries
    [where pc = two_entries
       and flt = "no_filters\<lparr>f_prevDayFilters :=
         Some [''open_above_prev_high'', ''close_below_prev_low'']\<rparr>",
     THEN conjunct1]
  note eq4 = getFilteredCharts_entries
    [where pc = two_entries and flt = "no_filters\<lparr>f_gapDirections := Some [''down'']\<rparr>",
     THEN conjunct1]
  note eq5 = getFilteredCharts_entries
    [where pc = two_entries
       and flt = "no_filters\<lparr>f_gapDirections := Some [''down'', ''up''],
         f_gapSizeClasses := Some [''small'']\<rparr>",
     THEN conjunct1]
  show ?thesis
    unfolding eq1 eq2 eq3 eq4 eq5 by code_simp
qed

end
